theory Spec2Isabelle
  imports Complex_Main "HOL-Library.Multiset"
begin

section \<open>Data model of \<open>simpleAssociation.py\<close>\<close>

text \<open>
  Python floats are modelled as real numbers (no rounding, no NaN) and Python integers as
  \<open>int\<close>. The pandas table of DiaSources is a list of rows in table order. The columns the
  engine touches are fields of the row; every other measurement column is carried in
  \<open>columns\<close>. The cell of the column \<open>diaObjectId\<close> is its numeric value, \<open>None\<close>
  where the table holds no value (no column, or NaN).
\<close>

datatype error = IndexError | ValueError

record 'x diaSource =
  ccdVisitId :: int
  diaSourceId :: int
  src_ra :: real
  src_decl :: real
  src_diaObjectId :: "int option"
  columns :: 'x

text \<open>
  A pandas column has one dtype for all its rows. The table may come without a
  \<open>diaObjectId\<close> column, with a column of 64-bit integers, or with a column of 64-bit
  floats; other dtypes are outside the model.
\<close>

datatype column_dtype = NoColumn | Int64 | Float64

record 'x diaSourceTable =
  table_rows :: "'x diaSource list"
  diaObjectId_dtype :: column_dtype

text \<open>The dictionary built by \<open>createDiaObject\<close>, one field per key.\<close>

record diaObject =
  diaObjectId :: int
  ra :: real
  decl :: real
  nDiaSources :: int
  pmParallaxNdata :: int
  nearbyObj1 :: int
  nearbyObj2 :: int
  nearbyObj3 :: int
  flags :: int
  uPSFluxNdata :: int
  gPSFluxNdata :: int
  rPSFluxNdata :: int
  iPSFluxNdata :: int
  zPSFluxNdata :: int
  yPSFluxNdata :: int

text \<open>\<open>lsst.geom.SpherePoint(ra, decl, geom.degrees)\<close>: longitude and latitude in degrees.\<close>

datatype SpherePoint = SpherePoint (getRa_asDegrees: real) (getDec_asDegrees: real)

record SimpleAssociationConfig =
  tolerance :: real
  nside :: int

text \<open>
  The functions that \<open>simpleAssociation.py\<close> imports and whose code is not part of the
  module are parameters of the model: \<open>toIndex\<close>, \<open>query_disc\<close> and \<open>eq2xyz\<close> of
  \<open>associationUtils\<close>, \<open>averageSpherePoint\<close> of \<open>lsst.geom\<close>, and the id factory of
  \<open>lsst.afw.table\<close>, where \<open>makeSource tractPatchId reserved k\<close> is the id that the record
  added to the id catalog after \<open>k\<close> earlier ones receives. They are taken as total functions:
  an exception raised inside one of them is outside the model.
\<close>

record assoc_lib =
  toIndex :: "int \<Rightarrow> real \<Rightarrow> real \<Rightarrow> int"
  query_disc :: "int \<Rightarrow> real \<Rightarrow> real \<Rightarrow> real \<Rightarrow> int list"
  eq2xyz :: "real \<Rightarrow> real \<Rightarrow> real \<times> real \<times> real"
  averageSpherePoint :: "SpherePoint list \<Rightarrow> SpherePoint"
  makeSource :: "int \<Rightarrow> int \<Rightarrow> nat \<Rightarrow> int"

text \<open>
  The mutable variables of \<open>run\<close>: the source table (written in place), the three lists
  created at lines 99 to 101 and the number of records added to \<open>idCat\<close> so far.
\<close>

record 'x engine =
  diaSources :: "'x diaSourceTable"
  diaObjectCat :: "diaObject list"
  diaObjectCoords :: "SpherePoint list list"
  healPixIndices :: "int list"
  idCat :: nat

text \<open>The \<open>pipeBase.Struct\<close> returned by \<open>run\<close>.\<close>

record 'x run_result =
  assocDiaSources :: "'x diaSourceTable"
  diaObjects :: "diaObject list"

section \<open>numpy helpers\<close>

definition deg2rad :: "real \<Rightarrow> real" where
  "deg2rad x = x * pi / 180"

text \<open>
  \<open>np.min\<close> and \<open>np.argmin\<close> (index of the first minimum) of a non-empty array. On an
  empty array numpy raises \<open>ValueError\<close>; the loop body below tests for the empty array
  before it uses them.
\<close>

fun np_min :: "real list \<Rightarrow> real" where
  "np_min [x] = x"
| "np_min (x # xs) = min x (np_min xs)"

fun np_argmin :: "real list \<Rightarrow> nat" where
  "np_argmin [x] = 0"
| "np_argmin (x # xs) = (if x \<le> np_min xs then 0 else Suc (np_argmin xs))"

text \<open>\<open>np.sqrt(np.sum((a - b)**2))\<close> for two arrays of three components.\<close>

fun vec_dist :: "real \<times> real \<times> real \<Rightarrow> real \<times> real \<times> real \<Rightarrow> real" where
  "vec_dist (x1, y1, z1) (x2, y2, z2) = sqrt ((x1 - x2)\<^sup>2 + (y1 - y2)\<^sup>2 + (z1 - z2)\<^sup>2)"

text \<open>
  The conversion of a Python integer to a 64-bit float, as the integer the float is equal to:
  the integer is kept to 53 significant bits, rounded to the nearest, a tie to the even one
  (integers of 64 bits are far from the overflow of the format).
\<close>

function float64_exponent :: "int \<Rightarrow> nat" where
  "float64_exponent a = (if a < 2 ^ 53 then 0 else Suc (float64_exponent (a div 2)))"
  by pat_completeness auto
termination
  by (relation "measure nat") auto

declare float64_exponent.simps [simp del]

definition float64_of_int :: "int \<Rightarrow> int" where
  "float64_of_int n =
     (let a = \<bar>n\<bar>; e = float64_exponent a; q = a div 2 ^ e; r = a mod 2 ^ e;
          q' = (if 2 ^ e < 2 * r \<or> (2 * r = 2 ^ e \<and> odd q) then q + 1 else q)
      in sgn n * (q' * 2 ^ e))"

text \<open>
  What a cell of the \<open>diaObjectId\<close> column holds after an integer was assigned to it
  through \<open>.loc\<close>: an integer column keeps the integer; a table without the column gets a
  column of floats (NaN in the other rows), and a column of floats stays one, so the
  integer is converted to a float. The integers assigned are ids of the id factory, which
  are 64-bit integers, so an integer column holds them as they are.
\<close>

definition stored_value :: "column_dtype \<Rightarrow> int \<Rightarrow> int" where
  "stored_value dtype v = (if dtype = Int64 then v else float64_of_int v)"

definition dtype_after_write :: "column_dtype \<Rightarrow> column_dtype" where
  "dtype_after_write dtype = (if dtype = Int64 then Int64 else Float64)"

section \<open>The operations of \<open>SimpleAssociationTask\<close>\<close>

definition createDiaObject :: "int \<Rightarrow> real \<Rightarrow> real \<Rightarrow> diaObject" where
  "createDiaObject objId ra' decl' =
     \<lparr>diaObjectId = objId, ra = ra', decl = decl', nDiaSources = 1, pmParallaxNdata = 0,
      nearbyObj1 = 0, nearbyObj2 = 0, nearbyObj3 = 0, flags = 0,
      uPSFluxNdata = 0, gPSFluxNdata = 0, rPSFluxNdata = 0, iPSFluxNdata = 0,
      zPSFluxNdata = 0, yPSFluxNdata = 0\<rparr>"

text \<open>
  \<open>diaSources.loc[(ccdVisit, diaSourceId), "diaObjectId"] = objId\<close>: every row whose index
  key is \<open>(ccdVisit, diaSourceId)\<close> receives the value, as the column's dtype stores it.
  For a key that no row has, pandas appends a row of missing values, which the row type
  cannot hold; the model keeps the rows as they are in that case. \<open>run\<close> takes every key
  it writes from a row of the table: the lemmas on the loops carry that the source at hand is
  a row of the table.
\<close>

definition set_diaObjectId ::
  "int \<Rightarrow> int \<Rightarrow> int \<Rightarrow> 'x diaSourceTable \<Rightarrow> 'x diaSourceTable" where
  "set_diaObjectId ccdVisit srcId objId tbl =
     \<lparr>table_rows =
        map (\<lambda>r. if ccdVisitId r = ccdVisit \<and> diaSourceId r = srcId
                 then r\<lparr>src_diaObjectId := Some (stored_value (diaObjectId_dtype tbl) objId)\<rparr>
                 else r)
          (table_rows tbl),
      diaObjectId_dtype = dtype_after_write (diaObjectId_dtype tbl)\<rparr>"

definition addNewDiaObject ::
  "assoc_lib \<Rightarrow> SimpleAssociationConfig \<Rightarrow> (nat \<Rightarrow> int) \<Rightarrow> 'x diaSource \<Rightarrow> int \<Rightarrow> int \<Rightarrow>
   'x engine \<Rightarrow> 'x engine" where
  "addNewDiaObject L cfg idFactory diaSrc ccdVisit srcId st =
     (let hpIndex = toIndex L (nside cfg) (src_ra diaSrc) (src_decl diaSrc);
          sphPoint = SpherePoint (src_ra diaSrc) (src_decl diaSrc);
          diaObjId = idFactory (idCat st)
      in st\<lparr>healPixIndices := healPixIndices st @ [hpIndex],
            diaObjectCoords := diaObjectCoords st @ [[sphPoint]],
            idCat := Suc (idCat st),
            diaObjectCat := diaObjectCat st
               @ [createDiaObject diaObjId (src_ra diaSrc) (src_decl diaSrc)],
            diaSources := set_diaObjectId ccdVisit srcId diaObjId (diaSources st)\<rparr>)"

text \<open>
  \<open>updateCatalogs\<close> indexes the three lists with \<open>matchIndex\<close>; Python raises
  \<open>IndexError\<close> where the index is out of range.
\<close>

definition updateCatalogs ::
  "assoc_lib \<Rightarrow> SimpleAssociationConfig \<Rightarrow> nat \<Rightarrow> 'x diaSource \<Rightarrow> int \<Rightarrow> int \<Rightarrow>
   'x engine \<Rightarrow> error + 'x engine" where
  "updateCatalogs L cfg matchIndex diaSrc ccdVisit srcId st =
     (if matchIndex < length (diaObjectCoords st) \<and> matchIndex < length (diaObjectCat st)
         \<and> matchIndex < length (healPixIndices st)
      then
        (let sphPoint = SpherePoint (src_ra diaSrc) (src_decl diaSrc);
             coords = diaObjectCoords st ! matchIndex @ [sphPoint];
             aveCoord = averageSpherePoint L coords;
             obj = diaObjectCat st ! matchIndex;
             obj1 = obj\<lparr>ra := getRa_asDegrees aveCoord, decl := getDec_asDegrees aveCoord\<rparr>;
             nSources = nDiaSources obj1;
             obj2 = obj1\<lparr>nDiaSources := nSources + 1\<rparr>
         in Inr (st\<lparr>diaObjectCoords := (diaObjectCoords st)[matchIndex := coords],
                    diaObjectCat := (diaObjectCat st)[matchIndex := obj2],
                    healPixIndices := (healPixIndices st)
                       [matchIndex := toIndex L (nside cfg) (ra obj2) (decl obj2)],
                    diaSources := set_diaObjectId ccdVisit srcId (diaObjectId obj2)
                                    (diaSources st)\<rparr>))
      else Inl IndexError)"

text \<open>
  \<open>findMatches\<close>. The result \<open>Struct(dists=None, matches=None)\<close> is \<open>None\<close>, the result
  \<open>Struct(dists=dists, matches=matchIndices)\<close> is \<open>Some (dists, matchIndices)\<close>.
  \<open>np.argwhere(np.isin(hpIndices, match_indices)).flatten()\<close> lists, in increasing order, the
  positions of \<open>hpIndices\<close> whose value occurs in \<open>match_indices\<close>.
\<close>

definition findMatches ::
  "assoc_lib \<Rightarrow> SimpleAssociationConfig \<Rightarrow> real \<Rightarrow> real \<Rightarrow> real \<Rightarrow> int list \<Rightarrow>
   diaObject list \<Rightarrow> error + (real list \<times> nat list) option" where
  "findMatches L cfg src_ra' src_dec tol hpIndices diaObjs =
     (let match_indices = query_disc L (nside cfg) src_ra' src_dec (deg2rad (tol / 3600));
          matchIndices = filter (\<lambda>i. hpIndices ! i \<in> set match_indices) [0..<length hpIndices]
      in if length matchIndices < 1 then Inr None
         else if \<forall>m \<in> set matchIndices. m < length diaObjs
         then Inr (Some (map (\<lambda>m. vec_dist (eq2xyz L src_ra' src_dec)
                                      (eq2xyz L (ra (diaObjs ! m)) (decl (diaObjs ! m))))
                              matchIndices,
                         matchIndices))
         else Inl IndexError)"

text \<open>
  The body of the loop at lines 128 to 184: one source of a visit after the first. The
  state of the loop is the engine and the list \<open>usedMatchIndicies\<close>.
\<close>

definition associate_source ::
  "assoc_lib \<Rightarrow> SimpleAssociationConfig \<Rightarrow> (nat \<Rightarrow> int) \<Rightarrow> int \<Rightarrow> 'x engine \<Rightarrow> nat list \<Rightarrow>
   'x diaSource \<Rightarrow> error + ('x engine \<times> nat list)" where
  "associate_source L cfg idFactory ccdVisit st usedMatchIndicies diaSrc =
     (case findMatches L cfg (src_ra diaSrc) (src_decl diaSrc) (2 * tolerance cfg)
             (healPixIndices st) (diaObjectCat st) of
        Inl e \<Rightarrow> Inl e
      | Inr None \<Rightarrow>
          Inr (addNewDiaObject L cfg idFactory diaSrc ccdVisit (diaSourceId diaSrc) st,
               usedMatchIndicies)
      | Inr (Some (dists, matches)) \<Rightarrow>
          if dists = [] then Inl ValueError
          else if np_min dists < deg2rad (tolerance cfg / 3600) then
            (let matchDistArg = np_argmin dists in
             if matchDistArg < length matches then
               (let matchIndex = matches ! matchDistArg in
                if matchIndex \<notin> set usedMatchIndicies then
                  (case updateCatalogs L cfg matchIndex diaSrc ccdVisit (diaSourceId diaSrc) st of
                     Inl e \<Rightarrow> Inl e
                   | Inr st' \<Rightarrow> Inr (st', usedMatchIndicies @ [matchIndex]))
                else
                  Inr (addNewDiaObject L cfg idFactory diaSrc ccdVisit (diaSourceId diaSrc) st,
                       usedMatchIndicies))
             else Inl IndexError)
          else
            Inr (addNewDiaObject L cfg idFactory diaSrc ccdVisit (diaSourceId diaSrc) st,
                 usedMatchIndicies))"

text \<open>The loop at lines 115 to 123: every source of the visit founds an object.\<close>

fun first_visit_loop ::
  "assoc_lib \<Rightarrow> SimpleAssociationConfig \<Rightarrow> (nat \<Rightarrow> int) \<Rightarrow> int \<Rightarrow> 'x engine \<Rightarrow>
   'x diaSource list \<Rightarrow> 'x engine" where
  "first_visit_loop L cfg idFactory ccdVisit st [] = st"
| "first_visit_loop L cfg idFactory ccdVisit st (diaSrc # rest) =
     first_visit_loop L cfg idFactory ccdVisit
       (addNewDiaObject L cfg idFactory diaSrc ccdVisit (diaSourceId diaSrc) st) rest"

text \<open>The loop at lines 128 to 184; an exception ends it.\<close>

fun later_visit_loop ::
  "assoc_lib \<Rightarrow> SimpleAssociationConfig \<Rightarrow> (nat \<Rightarrow> int) \<Rightarrow> int \<Rightarrow> 'x engine \<Rightarrow> nat list \<Rightarrow>
   'x diaSource list \<Rightarrow> error + 'x engine" where
  "later_visit_loop L cfg idFactory ccdVisit st used [] = Inr st"
| "later_visit_loop L cfg idFactory ccdVisit st used (diaSrc # rest) =
     (case associate_source L cfg idFactory ccdVisit st used diaSrc of
        Inl e \<Rightarrow> Inl e
      | Inr (st', used') \<Rightarrow> later_visit_loop L cfg idFactory ccdVisit st' used' rest)"

text \<open>
  The body of the loop over visits, lines 111 to 184. \<open>diaSources.loc[ccdVisit]\<close> is the
  rows of the visit in table order.
\<close>

definition process_visit ::
  "assoc_lib \<Rightarrow> SimpleAssociationConfig \<Rightarrow> (nat \<Rightarrow> int) \<Rightarrow> 'x engine \<Rightarrow> int \<Rightarrow>
   error + 'x engine" where
  "process_visit L cfg idFactory st ccdVisit =
     (let ccdVisitSources = filter (\<lambda>r. ccdVisitId r = ccdVisit) (table_rows (diaSources st))
      in if length (diaObjectCat st) = 0
         then Inr (first_visit_loop L cfg idFactory ccdVisit st ccdVisitSources)
         else later_visit_loop L cfg idFactory ccdVisit st [] ccdVisitSources)"

fun visits_loop ::
  "assoc_lib \<Rightarrow> SimpleAssociationConfig \<Rightarrow> (nat \<Rightarrow> int) \<Rightarrow> 'x engine \<Rightarrow> int list \<Rightarrow>
   error + 'x engine" where
  "visits_loop L cfg idFactory st [] = Inr st"
| "visits_loop L cfg idFactory st (ccdVisit # rest) =
     (case process_visit L cfg idFactory st ccdVisit of
        Inl e \<Rightarrow> Inl e
      | Inr st' \<Rightarrow> visits_loop L cfg idFactory st' rest)"

text \<open>
  \<open>run\<close>. \<open>diaSources.index.levels[0]\<close> is the sorted list of the distinct values of
  \<open>ccdVisitId\<close>. \<open>run_engine\<close> is the state of the variables of \<open>run\<close> when the loop over
  the visits has ended; \<open>run\<close> returns two of them.
\<close>

definition init_engine :: "'x diaSourceTable \<Rightarrow> 'x engine" where
  "init_engine srcs =
     \<lparr>diaSources = srcs, diaObjectCat = [], diaObjectCoords = [], healPixIndices = [],
      idCat = 0\<rparr>"

definition run_engine ::
  "assoc_lib \<Rightarrow> SimpleAssociationConfig \<Rightarrow> 'x diaSourceTable \<Rightarrow> int \<Rightarrow> int \<Rightarrow>
   error + 'x engine" where
  "run_engine L cfg srcs tractPatchId skymapBits =
     (let idFactory = makeSource L tractPatchId (64 - skymapBits)
      in visits_loop L cfg idFactory (init_engine srcs)
           (sort (remdups (map ccdVisitId (table_rows srcs)))))"

definition run ::
  "assoc_lib \<Rightarrow> SimpleAssociationConfig \<Rightarrow> 'x diaSourceTable \<Rightarrow> int \<Rightarrow> int \<Rightarrow>
   error + 'x run_result" where
  "run L cfg srcs tractPatchId skymapBits =
     (case run_engine L cfg srcs tractPatchId skymapBits of
        Inl e \<Rightarrow> Inl e
      | Inr st \<Rightarrow> Inr \<lparr>assocDiaSources = diaSources st, diaObjects = diaObjectCat st\<rparr>)"

section \<open>Notions used in the statements\<close>

text \<open>
  The expressions of \<open>findMatches\<close> and of the loop body, named: the candidate positions
  \<open>matchIndices\<close> for a source (the search radius is twice the tolerance), the distance
  computed for one candidate, the position \<open>matches[np.argmin(dists)]\<close>, and the test
  \<open>np.min(dists) < np.deg2rad(tolerance/3600)\<close> on a non-empty candidate list.
\<close>

definition candidates :: "assoc_lib \<Rightarrow> SimpleAssociationConfig \<Rightarrow> 'x diaSource \<Rightarrow> int list \<Rightarrow> nat list" where
  "candidates L cfg s hp =
     filter (\<lambda>i. hp ! i \<in> set (query_disc L (nside cfg) (src_ra s) (src_decl s)
                                  (deg2rad (2 * tolerance cfg / 3600))))
       [0..<length hp]"

definition src_dist :: "assoc_lib \<Rightarrow> 'x diaSource \<Rightarrow> diaObject \<Rightarrow> real" where
  "src_dist L s obj = vec_dist (eq2xyz L (src_ra s) (src_decl s)) (eq2xyz L (ra obj) (decl obj))"

definition nearest :: "assoc_lib \<Rightarrow> SimpleAssociationConfig \<Rightarrow> 'x diaSource \<Rightarrow> 'x engine \<Rightarrow> nat" where
  "nearest L cfg s st =
     candidates L cfg s (healPixIndices st)
       ! np_argmin (map (\<lambda>m. src_dist L s (diaObjectCat st ! m))
                      (candidates L cfg s (healPixIndices st)))"

definition matched :: "assoc_lib \<Rightarrow> SimpleAssociationConfig \<Rightarrow> 'x diaSource \<Rightarrow> 'x engine \<Rightarrow> bool" where
  "matched L cfg s st \<longleftrightarrow>
     candidates L cfg s (healPixIndices st) \<noteq> []
     \<and> np_min (map (\<lambda>m. src_dist L s (diaObjectCat st ! m))
                 (candidates L cfg s (healPixIndices st))) < deg2rad (tolerance cfg / 3600)"

text \<open>
  The three lists of the engine run in parallel: equal lengths, and the member count of each
  object is the length of its coordinate history.
\<close>

definition parallel_lists :: "'x engine \<Rightarrow> bool" where
  "parallel_lists st \<longleftrightarrow>
     length (diaObjectCoords st) = length (diaObjectCat st)
     \<and> length (healPixIndices st) = length (diaObjectCat st)
     \<and> list_all2 (\<lambda>obj coords. nDiaSources obj = int (length coords))
          (diaObjectCat st) (diaObjectCoords st)"

text \<open>
  \<open>erase\<close> blanks the \<open>diaObjectId\<close> column of a row, so that two tables with equal
  \<open>map erase\<close> have the same rows in the same order up to that column.
  \<open>processing_order\<close> lists the rows in the order in which \<open>run\<close> visits them.
\<close>

definition erase :: "'x diaSource \<Rightarrow> 'x diaSource" where
  "erase r = r\<lparr>src_diaObjectId := None\<rparr>"

definition processing_order :: "'x diaSource list \<Rightarrow> 'x diaSource list" where
  "processing_order rows =
     concat (map (\<lambda>v. filter (\<lambda>r. ccdVisitId r = v) rows)
               (sort (remdups (map ccdVisitId rows))))"

text \<open>
  Two tables, and two engines, that agree except for what the \<open>diaObjectId\<close> column held
  before \<open>run\<close>: the rows are equal up to that column and equal in it for the keys in \<open>K\<close>,
  the keys already written. Both columns are integer columns or neither is, and the dtypes
  are equal once a cell was written.
\<close>

definition rows_agree ::
  "(int \<times> int) set \<Rightarrow> 'x diaSource list \<Rightarrow> 'x diaSource list \<Rightarrow> bool" where
  "rows_agree K rows rows' \<longleftrightarrow>
     list_all2 (\<lambda>r r'. erase r = erase r' \<and> ((ccdVisitId r, diaSourceId r) \<in> K \<longrightarrow> r = r'))
       rows rows'"

definition engines_agree :: "(int \<times> int) set \<Rightarrow> 'x engine \<Rightarrow> 'x engine \<Rightarrow> bool" where
  "engines_agree K st st' \<longleftrightarrow>
     diaObjectCat st = diaObjectCat st' \<and> diaObjectCoords st = diaObjectCoords st'
     \<and> healPixIndices st = healPixIndices st' \<and> idCat st = idCat st'
     \<and> rows_agree K (table_rows (diaSources st)) (table_rows (diaSources st'))
     \<and> ((diaObjectId_dtype (diaSources st) = Int64)
          = (diaObjectId_dtype (diaSources st') = Int64))
     \<and> (K \<noteq> {} \<longrightarrow> diaObjectId_dtype (diaSources st) = diaObjectId_dtype (diaSources st'))"

text \<open>
  The index key of a row, its coordinate, and the coordinates of the rows with a key in \<open>K\<close>
  whose \<open>diaObjectId\<close> cell holds the id \<open>objId\<close> as the column stores it.
\<close>

definition source_key :: "'x diaSource \<Rightarrow> int \<times> int" where
  "source_key r = (ccdVisitId r, diaSourceId r)"

definition source_point :: "'x diaSource \<Rightarrow> SpherePoint" where
  "source_point r = SpherePoint (src_ra r) (src_decl r)"

definition assigned_points ::
  "(int \<times> int) set \<Rightarrow> 'x diaSourceTable \<Rightarrow> int \<Rightarrow> SpherePoint multiset" where
  "assigned_points K tbl objId =
     image_mset source_point
       (filter_mset (\<lambda>r. source_key r \<in> K
                        \<and> src_diaObjectId r = Some (stored_value (diaObjectId_dtype tbl) objId))
          (mset (table_rows tbl)))"

text \<open>
  Mean and cell of the objects, with \<open>K\<close> the keys of the sources processed so far: the
  lists have the length of the catalog, which is the number of ids handed out; object \<open>i\<close> has
  the \<open>i\<close>-th id of the factory; its coordinate is \<open>averageSpherePoint\<close> of its coordinate
  history; the history holds, with multiplicity, the coordinates of the processed rows whose
  cell holds the id of the object; its cell index is \<open>toIndex\<close> of its coordinate at the
  configured \<open>nside\<close>; and the cell of every processed row holds the id of an object.
\<close>

definition mean_and_cell ::
  "assoc_lib \<Rightarrow> SimpleAssociationConfig \<Rightarrow> (nat \<Rightarrow> int) \<Rightarrow> (int \<times> int) set \<Rightarrow> 'x engine \<Rightarrow> bool" where
  "mean_and_cell L cfg idFactory K st \<longleftrightarrow>
     length (diaObjectCoords st) = length (diaObjectCat st)
     \<and> length (healPixIndices st) = length (diaObjectCat st)
     \<and> idCat st = length (diaObjectCat st)
     \<and> (\<forall>i < length (diaObjectCat st).
           diaObjectId (diaObjectCat st ! i) = idFactory i
           \<and> SpherePoint (ra (diaObjectCat st ! i)) (decl (diaObjectCat st ! i))
               = averageSpherePoint L (diaObjectCoords st ! i)
           \<and> mset (diaObjectCoords st ! i)
               = assigned_points K (diaSources st) (diaObjectId (diaObjectCat st ! i))
           \<and> healPixIndices st ! i
               = toIndex L (nside cfg) (ra (diaObjectCat st ! i)) (decl (diaObjectCat st ! i)))
     \<and> (\<forall>r \<in> set (table_rows (diaSources st)). source_key r \<in> K \<longrightarrow>
           (\<exists>i < length (diaObjectCat st).
              src_diaObjectId r
                = Some (stored_value (diaObjectId_dtype (diaSources st)) (idFactory i))))"

text \<open>
  The conditions on the source \<open>s\<close> that is processed next: the index keys of the table are
  distinct, \<open>s\<close> is a row of the table whose key was not processed before, and the ids handed
  out so far, the next one included, are stored in the column as distinct values.
\<close>

definition next_source :: "(nat \<Rightarrow> int) \<Rightarrow> (int \<times> int) set \<Rightarrow> 'x engine \<Rightarrow> 'x diaSource \<Rightarrow> bool" where
  "next_source idFactory K st s \<longleftrightarrow>
     distinct (map source_key (table_rows (diaSources st)))
     \<and> erase s \<in> set (map erase (table_rows (diaSources st)))
     \<and> source_key s \<notin> K
     \<and> inj_on (\<lambda>k. stored_value (diaObjectId_dtype (diaSources st)) (idFactory k)) {..idCat st}"

section \<open>A library instance for evaluating the model\<close>

text \<open>
  Modelled from the spec: \<open>eq2xyz\<close> of \<open>associationUtils\<close> is not part of the module; the
  spec calls it the coordinate-to-unit-vector conversion. \<open>unit_vector\<close> is that conversion
  for a right ascension and a declination in degrees.
\<close>

definition unit_vector :: "real \<Rightarrow> real \<Rightarrow> real \<times> real \<times> real" where
  "unit_vector ra' dec = (cos (deg2rad dec) * cos (deg2rad ra'),
                          cos (deg2rad dec) * sin (deg2rad ra'),
                          sin (deg2rad dec))"

text \<open>
  The great-circle angular separation of two sky coordinates, in radians: the angle between
  their unit vectors.
\<close>

definition great_circle_separation :: "real \<Rightarrow> real \<Rightarrow> real \<Rightarrow> real \<Rightarrow> real" where
  "great_circle_separation ra1 dec1 ra2 dec2 =
     (case (unit_vector ra1 dec1, unit_vector ra2 dec2) of
        ((x1, y1, z1), (x2, y2, z2)) \<Rightarrow> arccos (x1 * x2 + y1 * y2 + z1 * z2))"

text \<open>
  The instance used where a run is evaluated on a concrete table: the whole sky is one cell of
  the spatial index (the coarse filter keeps every object), distances come from
  \<open>unit_vector\<close>, the average of a coordinate history is the mean of its longitudes and of
  its latitudes, and the id factory counts from 1 above the shifted \<open>tractPatchId\<close>.
\<close>

definition mean_point :: "SpherePoint list \<Rightarrow> SpherePoint" where
  "mean_point ps = SpherePoint (sum_list (map getRa_asDegrees ps) / real (length ps))
                               (sum_list (map getDec_asDegrees ps) / real (length ps))"

definition one_cell_lib :: assoc_lib where
  "one_cell_lib = \<lparr>toIndex = (\<lambda>n a d. 0), query_disc = (\<lambda>n a d r. [0]),
      eq2xyz = unit_vector, averageSpherePoint = mean_point,
      makeSource = (\<lambda>tp reserved k. tp * 2 ^ nat reserved + int k + 1)\<rparr>"

definition default_config :: SimpleAssociationConfig where
  "default_config = \<lparr>tolerance = 0.5, nside = 2 ^ 18\<rparr>"

definition mk_source :: "int \<Rightarrow> int \<Rightarrow> real \<Rightarrow> real \<Rightarrow> unit diaSource" where
  "mk_source v k a d = \<lparr>ccdVisitId = v, diaSourceId = k, src_ra = a, src_decl = d,
                  src_diaObjectId = None, columns = ()\<rparr>"

text \<open>A table that comes without the \<open>diaObjectId\<close> column, and one with a column of floats.\<close>

definition no_column :: "'x diaSource list \<Rightarrow> 'x diaSourceTable" where
  "no_column rs = \<lparr>table_rows = rs, diaObjectId_dtype = NoColumn\<rparr>"

definition float_column :: "'x diaSource list \<Rightarrow> 'x diaSourceTable" where
  "float_column rs = \<lparr>table_rows = rs, diaObjectId_dtype = Float64\<rparr>"

text \<open>
  Two engine states for evaluating one step of the loop: one object at \<open>(0, 0)\<close>, and
  two objects founded at the same coordinate \<open>(0, 0)\<close>.
\<close>

definition one_object :: "unit engine" where
  "one_object =
     \<lparr>diaSources = no_column [], diaObjectCat = [createDiaObject 1 0 0],
      diaObjectCoords = [[SpherePoint 0 0]], healPixIndices = [0], idCat = 1\<rparr>"

definition two_coincident_objects :: "unit engine" where
  "two_coincident_objects =
     \<lparr>diaSources = no_column [], diaObjectCat = [createDiaObject 1 0 0, createDiaObject 2 0 0],
      diaObjectCoords = [[SpherePoint 0 0], [SpherePoint 0 0]], healPixIndices = [0, 0],
      idCat = 2\<rparr>"

section \<open>Basic facts about the operations\<close>

lemma addNewDiaObject_fields [simp]:
  "diaObjectCat (addNewDiaObject L cfg idf s v k st)
     = diaObjectCat st @ [createDiaObject (idf (idCat st)) (src_ra s) (src_decl s)]"
  "diaObjectCoords (addNewDiaObject L cfg idf s v k st)
     = diaObjectCoords st @ [[SpherePoint (src_ra s) (src_decl s)]]"
  "healPixIndices (addNewDiaObject L cfg idf s v k st)
     = healPixIndices st @ [toIndex L (nside cfg) (src_ra s) (src_decl s)]"
  "idCat (addNewDiaObject L cfg idf s v k st) = Suc (idCat st)"
  "diaSources (addNewDiaObject L cfg idf s v k st)
     = set_diaObjectId v k (idf (idCat st)) (diaSources st)"
  by (simp_all add: addNewDiaObject_def Let_def)

lemma createDiaObject_fields [simp]:
  "diaObjectId (createDiaObject i a d) = i"
  "ra (createDiaObject i a d) = a"
  "decl (createDiaObject i a d) = d"
  "nDiaSources (createDiaObject i a d) = 1"
  by (simp_all add: createDiaObject_def)

lemma updateCatalogs_Inr:
  assumes "updateCatalogs L cfg i s v k st = Inr st'"
  shows "i < length (diaObjectCoords st)" "i < length (diaObjectCat st)"
    "i < length (healPixIndices st)"
    "diaObjectCoords st' = (diaObjectCoords st)
        [i := diaObjectCoords st ! i @ [SpherePoint (src_ra s) (src_decl s)]]"
    "diaObjectCat st' = (diaObjectCat st)
        [i := (diaObjectCat st ! i)
           \<lparr>ra := getRa_asDegrees (averageSpherePoint L
                    (diaObjectCoords st ! i @ [SpherePoint (src_ra s) (src_decl s)])),
            decl := getDec_asDegrees (averageSpherePoint L
                    (diaObjectCoords st ! i @ [SpherePoint (src_ra s) (src_decl s)])),
            nDiaSources := nDiaSources (diaObjectCat st ! i) + 1\<rparr>]"
    "healPixIndices st' = (healPixIndices st)
        [i := toIndex L (nside cfg)
           (getRa_asDegrees (averageSpherePoint L
                    (diaObjectCoords st ! i @ [SpherePoint (src_ra s) (src_decl s)])))
           (getDec_asDegrees (averageSpherePoint L
                    (diaObjectCoords st ! i @ [SpherePoint (src_ra s) (src_decl s)])))]"
    "idCat st' = idCat st"
    "diaSources st' = set_diaObjectId v k (diaObjectId (diaObjectCat st ! i)) (diaSources st)"
  using assms by (auto simp: updateCatalogs_def Let_def split: if_splits)

lemma updateCatalogs_in_range:
  "i < length (diaObjectCoords st) \<Longrightarrow> i < length (diaObjectCat st) \<Longrightarrow>
   i < length (healPixIndices st) \<Longrightarrow> \<exists>st'. updateCatalogs L cfg i s v k st = Inr st'"
  by (simp add: updateCatalogs_def Let_def)

lemma parallel_lists_init: "parallel_lists (init_engine srcs)"
  by (simp add: parallel_lists_def init_engine_def)

lemma parallel_lists_addNew:
  "parallel_lists st \<Longrightarrow> parallel_lists (addNewDiaObject L cfg idf s v k st)"
  by (simp add: parallel_lists_def list_all2_appendI)

lemma parallel_lists_update:
  assumes "parallel_lists st" "updateCatalogs L cfg i s v k st = Inr st'"
  shows "parallel_lists st'"
proof -
  note u = updateCatalogs_Inr [OF assms(2)]
  from assms(1) have l: "list_all2 (\<lambda>obj coords. nDiaSources obj = int (length coords))
          (diaObjectCat st) (diaObjectCoords st)"
    by (simp add: parallel_lists_def)
  have "nDiaSources (diaObjectCat st ! i) = int (length (diaObjectCoords st ! i))"
    by (rule list_all2_nthD [OF l u(2)])
  with l assms(1) show ?thesis
    unfolding parallel_lists_def u(4,5,6)
    by (simp add: list_all2_update_cong)
qed

lemma np_argmin_less: "xs \<noteq> [] \<Longrightarrow> np_argmin xs < length xs"
  by (induction xs rule: np_argmin.induct) auto

lemma np_argmin_nth: "xs \<noteq> [] \<Longrightarrow> xs ! np_argmin xs = np_min xs"
  by (induction xs rule: np_argmin.induct) auto

lemma np_min_le: "x \<in> set xs \<Longrightarrow> np_min xs \<le> x"
  by (induction xs rule: np_min.induct) auto

lemma np_min_Min: "xs \<noteq> [] \<Longrightarrow> np_min xs = Min (set xs)"
  by (induction xs rule: np_min.induct) auto

lemma np_argmin_first: "xs \<noteq> [] \<Longrightarrow> j < np_argmin xs \<Longrightarrow> np_min xs < xs ! j"
proof (induction xs arbitrary: j rule: np_argmin.induct)
  case (2 x y ys)
  then show ?case
    by (cases j) (auto split: if_splits simp: min_def)
qed auto

lemma np_min_nonneg: "xs \<noteq> [] \<Longrightarrow> \<forall>x \<in> set xs. 0 \<le> x \<Longrightarrow> 0 \<le> np_min xs"
  by (induction xs rule: np_min.induct) auto

lemma vec_dist_nonneg: "0 \<le> vec_dist p q"
  by (cases p; cases q) simp

lemma src_dist_nonneg: "0 \<le> src_dist L s obj"
  by (simp add: src_dist_def vec_dist_nonneg)

lemma findMatches_cases:
  "findMatches L cfg (src_ra s) (src_decl s) (2 * tolerance cfg) hp objs =
     (if candidates L cfg s hp = [] then Inr None
      else if \<forall>m \<in> set (candidates L cfg s hp). m < length objs
      then Inr (Some (map (\<lambda>m. src_dist L s (objs ! m)) (candidates L cfg s hp),
                      candidates L cfg s hp))
      else Inl IndexError)"
  by (auto simp: findMatches_def candidates_def src_dist_def Let_def)

lemma findMatches_eq:
  assumes "length hp = length objs"
  shows "findMatches L cfg (src_ra s) (src_decl s) (2 * tolerance cfg) hp objs =
     Inr (if candidates L cfg s hp = [] then None
          else Some (map (\<lambda>m. src_dist L s (objs ! m)) (candidates L cfg s hp),
                     candidates L cfg s hp))"
  using assms
  by (auto simp: findMatches_def candidates_def src_dist_def Let_def)

lemma candidates_less: "m \<in> set (candidates L cfg s hp) \<Longrightarrow> m < length hp"
  by (auto simp: candidates_def)

lemma nearest_candidate:
  "candidates L cfg s (healPixIndices st) \<noteq> [] \<Longrightarrow>
   nearest L cfg s st \<in> set (candidates L cfg s (healPixIndices st))"
  unfolding nearest_def
  by (rule nth_mem) (use np_argmin_less [of "map (\<lambda>m. src_dist L s (diaObjectCat st ! m))
       (candidates L cfg s (healPixIndices st))"] in simp)

lemma nearest_less:
  "candidates L cfg s (healPixIndices st) \<noteq> [] \<Longrightarrow>
   nearest L cfg s st < length (healPixIndices st)"
  using nearest_candidate candidates_less by blast

lemma nearest_dist:
  assumes "candidates L cfg s (healPixIndices st) \<noteq> []"
  shows "src_dist L s (diaObjectCat st ! nearest L cfg s st)
     = np_min (map (\<lambda>m. src_dist L s (diaObjectCat st ! m))
                 (candidates L cfg s (healPixIndices st)))"
proof -
  let ?c = "candidates L cfg s (healPixIndices st)"
  let ?ds = "map (\<lambda>m. src_dist L s (diaObjectCat st ! m)) ?c"
  from assms have ne: "?ds \<noteq> []" by simp
  have "np_argmin ?ds < length ?c" using np_argmin_less [OF ne] by simp
  then have "?ds ! np_argmin ?ds = src_dist L s (diaObjectCat st ! nearest L cfg s st)"
    by (simp add: nearest_def)
  with np_argmin_nth [OF ne] show ?thesis by simp
qed

lemma nearest_minimal:
  assumes "m \<in> set (candidates L cfg s (healPixIndices st))"
  shows "src_dist L s (diaObjectCat st ! nearest L cfg s st) \<le> src_dist L s (diaObjectCat st ! m)"
proof -
  from assms have c: "candidates L cfg s (healPixIndices st) \<noteq> []" by auto
  from assms have "src_dist L s (diaObjectCat st ! m)
      \<in> set (map (\<lambda>m. src_dist L s (diaObjectCat st ! m)) (candidates L cfg s (healPixIndices st)))"
    by simp
  from np_min_le [OF this] show ?thesis
    by (simp add: nearest_dist [OF c])
qed

lemma associate_source_eq:
  assumes "length (healPixIndices st) = length (diaObjectCat st)"
  shows "associate_source L cfg idf v st used s =
     (if matched L cfg s st \<and> nearest L cfg s st \<notin> set used
      then (case updateCatalogs L cfg (nearest L cfg s st) s v (diaSourceId s) st of
              Inl e \<Rightarrow> Inl e
            | Inr st' \<Rightarrow> Inr (st', used @ [nearest L cfg s st]))
      else Inr (addNewDiaObject L cfg idf s v (diaSourceId s) st, used))"
proof -
  let ?c = "candidates L cfg s (healPixIndices st)"
  let ?ds = "map (\<lambda>m. src_dist L s (diaObjectCat st ! m)) ?c"
  show ?thesis
  proof (cases "?c = []")
    case True
    then show ?thesis
      by (simp add: associate_source_def findMatches_eq [OF assms] matched_def)
  next
    case False
    then have ne: "?ds \<noteq> []" by simp
    have "np_argmin ?ds < length ?c" using np_argmin_less [OF ne] by simp
    with False show ?thesis
      by (simp add: associate_source_def findMatches_eq [OF assms] matched_def nearest_def
          Let_def split: sum.splits)
  qed
qed

lemma associate_source_attached:
  fixes st :: "'x engine"
  assumes a: "associate_source L cfg idf v st used s = Inr (st', used')"
    and l: "length (diaObjectCat st') = length (diaObjectCat st)"
  shows "matched L cfg s st \<and> nearest L cfg s st \<notin> set used
       \<and> used' = used @ [nearest L cfg s st]
       \<and> updateCatalogs L cfg (nearest L cfg s st) s v (diaSourceId s) st = Inr st'"
proof -
  let ?c = "candidates L cfg s (healPixIndices st)"
  let ?ds = "map (\<lambda>m. src_dist L s (diaObjectCat st ! m)) ?c"
  have new: "length (diaObjectCat (addNewDiaObject L cfg idf s v (diaSourceId s) st))
               \<noteq> length (diaObjectCat st)"
    by simp
  from a l new have c: "?c \<noteq> []"
    by (auto simp: associate_source_def findMatches_cases split: if_splits)
  from a c have fm: "findMatches L cfg (src_ra s) (src_decl s) (2 * tolerance cfg)
       (healPixIndices st) (diaObjectCat st) = Inr (Some (?ds, ?c))"
    by (auto simp: associate_source_def findMatches_cases split: if_splits)
  from c have ne: "?ds \<noteq> []" by simp
  have am: "np_argmin ?ds < length ?c" using np_argmin_less [OF ne] by simp
  from a l new show ?thesis
    unfolding associate_source_def fm
    using ne am
    by (auto simp: matched_def nearest_def Let_def split: if_splits sum.splits)
qed

lemma not_matched_nonpositive:
  assumes "tolerance cfg \<le> 0"
  shows "\<not> matched L cfg s st"
proof
  assume m: "matched L cfg s st"
  let ?ds = "map (\<lambda>m. src_dist L s (diaObjectCat st ! m)) (candidates L cfg s (healPixIndices st))"
  from m have ne: "?ds \<noteq> []" by (simp add: matched_def)
  have "0 \<le> np_min ?ds"
    by (rule np_min_nonneg [OF ne]) (auto simp: src_dist_nonneg)
  moreover from m have "np_min ?ds < deg2rad (tolerance cfg / 3600)"
    by (simp add: matched_def)
  moreover have "deg2rad (tolerance cfg / 3600) \<le> 0"
    using assms by (simp add: deg2rad_def mult_le_0_iff)
  ultimately show False by linarith
qed

lemma run_Inr:
  "run_engine L cfg srcs tp bits = Inr st \<Longrightarrow>
   run L cfg srcs tp bits = Inr \<lparr>assocDiaSources = diaSources st, diaObjects = diaObjectCat st\<rparr>"
  by (simp add: run_def)

section \<open>Rows and the \<open>diaObjectId\<close> column\<close>

lemma erase_fields [simp]:
  "ccdVisitId (erase r) = ccdVisitId r" "diaSourceId (erase r) = diaSourceId r"
  "src_ra (erase r) = src_ra r" "src_decl (erase r) = src_decl r"
  "columns (erase r) = columns r" "src_diaObjectId (erase r) = None"
  by (simp_all add: erase_def)

lemma erase_update [simp]: "erase (r\<lparr>src_diaObjectId := x\<rparr>) = erase r"
  by (simp add: erase_def)

lemma erase_set_diaObjectId [simp]:
  "map erase (table_rows (set_diaObjectId v k i tbl)) = map erase (table_rows tbl)"
  by (simp add: set_diaObjectId_def erase_def)

lemma dtype_set_diaObjectId [simp]:
  "diaObjectId_dtype (set_diaObjectId v k i tbl) = dtype_after_write (diaObjectId_dtype tbl)"
  by (simp add: set_diaObjectId_def)

lemma erase_filter_visit:
  "map erase (filter (\<lambda>r. ccdVisitId r = v) rows)
     = filter (\<lambda>r. ccdVisitId r = v) (map erase rows)"
  by (simp add: filter_map comp_def)

lemma erase_eq_fields:
  assumes "erase r = erase r'"
  shows "ccdVisitId r = ccdVisitId r' \<and> diaSourceId r = diaSourceId r' \<and> src_ra r = src_ra r'
   \<and> src_decl r = src_decl r' \<and> columns r = columns r'"
proof -
  have "ccdVisitId (erase r) = ccdVisitId (erase r')"
    "diaSourceId (erase r) = diaSourceId (erase r')"
    "src_ra (erase r) = src_ra (erase r')"
    "src_decl (erase r) = src_decl (erase r')"
    "columns (erase r) = columns (erase r')"
    by (simp_all only: assms)
  then show ?thesis
    by (simp only: erase_fields simp_thms)
qed

lemma erase_update_eq:
  assumes "erase r = erase r'"
  shows "r\<lparr>src_diaObjectId := x\<rparr> = r'\<lparr>src_diaObjectId := x\<rparr>"
proof -
  have "(erase r)\<lparr>src_diaObjectId := x\<rparr> = (erase r')\<lparr>src_diaObjectId := x\<rparr>"
    by (simp only: assms)
  then show ?thesis by (simp add: erase_def)
qed

lemma map_erase_eq_rows:
  assumes "map erase rows = map erase rows'"
  shows "list_all2 (\<lambda>r r'. ccdVisitId r = ccdVisitId r' \<and> diaSourceId r = diaSourceId r'
            \<and> src_ra r = src_ra r' \<and> src_decl r = src_decl r' \<and> columns r = columns r')
          rows rows'"
proof -
  have "list_all2 (=) (map erase rows) (map erase rows')"
    by (simp add: assms list.rel_eq)
  then have "list_all2 (\<lambda>r r'. erase r = erase r') rows rows'"
    by (simp add: list_all2_map1 list_all2_map2)
  then show ?thesis
    by (rule list_all2_mono) (rule erase_eq_fields)
qed

lemma associate_source_frame:
  assumes "associate_source L cfg idf v st used s = Inr (st', used')"
  shows "map erase (table_rows (diaSources st')) = map erase (table_rows (diaSources st))"
proof (cases "length (diaObjectCat st') = length (diaObjectCat st)")
  case True
  from associate_source_attached [OF assms True]
  have "updateCatalogs L cfg (nearest L cfg s st) s v (diaSourceId s) st = Inr st'" by simp
  from updateCatalogs_Inr(8) [OF this] show ?thesis by simp
next
  case False
  have u: "map erase (table_rows (diaSources x)) = map erase (table_rows (diaSources st))"
    if "updateCatalogs L cfg i s v (diaSourceId s) st = Inr x" for i x
    using updateCatalogs_Inr(8) [OF that] by simp
  from assms show ?thesis
    unfolding associate_source_def
    by (auto simp: Let_def u split: sum.splits option.splits if_splits)
qed

lemma later_visit_loop_frame:
  "later_visit_loop L cfg idf v st used rows = Inr st' \<Longrightarrow>
   map erase (table_rows (diaSources st')) = map erase (table_rows (diaSources st))"
proof (induction rows arbitrary: st used)
  case Nil
  then show ?case by simp
next
  case (Cons s rows)
  then show ?case
    by (auto split: sum.splits dest: associate_source_frame)
qed

lemma first_visit_loop_frame:
  "map erase (table_rows (diaSources (first_visit_loop L cfg idf v st rows)))
     = map erase (table_rows (diaSources st))"
  by (induction rows arbitrary: st) simp_all

lemma process_visit_frame:
  "process_visit L cfg idf st v = Inr st' \<Longrightarrow>
   map erase (table_rows (diaSources st')) = map erase (table_rows (diaSources st))"
  by (auto simp: process_visit_def Let_def first_visit_loop_frame later_visit_loop_frame
      split: if_splits)

lemma visits_loop_frame:
  "visits_loop L cfg idf st vs = Inr st' \<Longrightarrow>
   map erase (table_rows (diaSources st')) = map erase (table_rows (diaSources st))"
proof (induction vs arbitrary: st)
  case Nil
  then show ?case by simp
next
  case (Cons v vs)
  then show ?case
    by (auto split: sum.splits dest: process_visit_frame)
qed

section \<open>Invariants of the loops\<close>

text \<open>
  A property \<open>P d st\<close> of the rows processed so far and of the engine that both operations
  preserve holds when \<open>run\<close> has processed every row; the loops raise no exception.
\<close>

lemma first_visit_loop_inv:
  fixes P :: "'x diaSource list \<Rightarrow> 'x engine \<Rightarrow> bool"
  assumes add: "\<And>d st s. P d st \<Longrightarrow> parallel_lists st \<Longrightarrow> ccdVisitId s = v \<Longrightarrow>
       erase s \<in> set (map erase (table_rows (diaSources st))) \<Longrightarrow>
       P (d @ [erase s]) (addNewDiaObject L cfg idf s v (diaSourceId s) st)"
    and "P d st" "parallel_lists st" "\<forall>s \<in> set rows. ccdVisitId s = v"
    and "set (map erase rows) \<subseteq> set (map erase (table_rows (diaSources st)))"
  shows "P (d @ map erase rows) (first_visit_loop L cfg idf v st rows)
       \<and> parallel_lists (first_visit_loop L cfg idf v st rows)
       \<and> map erase (table_rows (diaSources (first_visit_loop L cfg idf v st rows)))
           = map erase (table_rows (diaSources st))"
  using assms(2-)
proof (induction rows arbitrary: d st)
  case Nil
  then show ?case by simp
next
  case (Cons s rows)
  let ?st = "addNewDiaObject L cfg idf s v (diaSourceId s) st"
  have 1: "P (d @ [erase s]) ?st"
    using add Cons.prems by simp
  have 2: "parallel_lists ?st"
    using Cons.prems by (simp add: parallel_lists_addNew)
  have 3: "\<forall>s \<in> set rows. ccdVisitId s = v"
    using Cons.prems by simp
  have 4: "set (map erase rows) \<subseteq> set (map erase (table_rows (diaSources ?st)))"
    using Cons.prems by simp
  from Cons.IH [OF 1 2 3 4] show ?case by simp
qed

lemma later_visit_loop_inv:
  fixes P :: "'x diaSource list \<Rightarrow> 'x engine \<Rightarrow> bool"
  assumes add: "\<And>d st s. P d st \<Longrightarrow> parallel_lists st \<Longrightarrow> ccdVisitId s = v \<Longrightarrow>
       erase s \<in> set (map erase (table_rows (diaSources st))) \<Longrightarrow>
       P (d @ [erase s]) (addNewDiaObject L cfg idf s v (diaSourceId s) st)"
    and upd: "\<And>d st s st'. P d st \<Longrightarrow> parallel_lists st \<Longrightarrow> ccdVisitId s = v \<Longrightarrow>
       erase s \<in> set (map erase (table_rows (diaSources st))) \<Longrightarrow>
       matched L cfg s st \<Longrightarrow>
       updateCatalogs L cfg (nearest L cfg s st) s v (diaSourceId s) st = Inr st' \<Longrightarrow>
       P (d @ [erase s]) st'"
    and "P d st" "parallel_lists st" "\<forall>s \<in> set rows. ccdVisitId s = v"
    and "set (map erase rows) \<subseteq> set (map erase (table_rows (diaSources st)))"
  shows "\<exists>st'. later_visit_loop L cfg idf v st used rows = Inr st'
       \<and> P (d @ map erase rows) st' \<and> parallel_lists st'
       \<and> map erase (table_rows (diaSources st')) = map erase (table_rows (diaSources st))"
  using assms(3-)
proof (induction rows arbitrary: d st used)
  case Nil
  then show ?case by simp
next
  case (Cons s rows)
  from Cons.prems have v: "ccdVisitId s = v" and rest: "\<forall>s \<in> set rows. ccdVisitId s = v"
    and mem: "erase s \<in> set (map erase (table_rows (diaSources st)))"
    and sub: "set (map erase rows) \<subseteq> set (map erase (table_rows (diaSources st)))"
    by simp_all
  from Cons.prems have len: "length (healPixIndices st) = length (diaObjectCat st)"
    "length (diaObjectCoords st) = length (diaObjectCat st)"
    by (simp_all add: parallel_lists_def)
  show ?case
  proof (cases "matched L cfg s st \<and> nearest L cfg s st \<notin> set used")
    case True
    then have "candidates L cfg s (healPixIndices st) \<noteq> []"
      by (simp add: matched_def)
    then have "nearest L cfg s st < length (healPixIndices st)"
      by (rule nearest_less)
    with len obtain st1
      where u: "updateCatalogs L cfg (nearest L cfg s st) s v (diaSourceId s) st = Inr st1"
      using updateCatalogs_in_range [of "nearest L cfg s st" st L cfg s v "diaSourceId s"]
      by auto
    have 1: "P (d @ [erase s]) st1"
      using upd Cons.prems(1,2) v mem True u by blast
    have 2: "parallel_lists st1"
      using parallel_lists_update Cons.prems(2) u by blast
    have 3: "map erase (table_rows (diaSources st1)) = map erase (table_rows (diaSources st))"
      using updateCatalogs_Inr(8) [OF u] by simp
    have 4: "set (map erase rows) \<subseteq> set (map erase (table_rows (diaSources st1)))"
      using sub unfolding 3 .
    have step: "associate_source L cfg idf v st used s = Inr (st1, used @ [nearest L cfg s st])"
      using True by (simp add: associate_source_eq [OF len(1)] u)
    from Cons.IH [OF 1 2 rest 4, of "used @ [nearest L cfg s st]"] step 3
    show ?thesis by simp
  next
    case False
    let ?st = "addNewDiaObject L cfg idf s v (diaSourceId s) st"
    have 1: "P (d @ [erase s]) ?st"
      using add Cons.prems(1,2) v mem by simp
    have 2: "parallel_lists ?st"
      using Cons.prems by (simp add: parallel_lists_addNew)
    have 4: "set (map erase rows) \<subseteq> set (map erase (table_rows (diaSources ?st)))"
      using sub by simp
    have step: "associate_source L cfg idf v st used s = Inr (?st, used)"
      by (simp only: associate_source_eq [OF len(1)] False if_False)
    from Cons.IH [OF 1 2 rest 4, of used] step
    show ?thesis by simp
  qed
qed

lemma process_visit_inv:
  fixes P :: "'x diaSource list \<Rightarrow> 'x engine \<Rightarrow> bool"
  assumes add: "\<And>d st s. P d st \<Longrightarrow> parallel_lists st \<Longrightarrow> ccdVisitId s = v \<Longrightarrow>
       erase s \<in> set (map erase (table_rows (diaSources st))) \<Longrightarrow>
       P (d @ [erase s]) (addNewDiaObject L cfg idf s v (diaSourceId s) st)"
    and upd: "\<And>d st s st'. P d st \<Longrightarrow> parallel_lists st \<Longrightarrow> ccdVisitId s = v \<Longrightarrow>
       erase s \<in> set (map erase (table_rows (diaSources st))) \<Longrightarrow>
       matched L cfg s st \<Longrightarrow>
       updateCatalogs L cfg (nearest L cfg s st) s v (diaSourceId s) st = Inr st' \<Longrightarrow>
       P (d @ [erase s]) st'"
    and "P d st" "parallel_lists st"
  shows "\<exists>st'. process_visit L cfg idf st v = Inr st'
       \<and> P (d @ filter (\<lambda>r. ccdVisitId r = v) (map erase (table_rows (diaSources st)))) st'
       \<and> parallel_lists st'
       \<and> map erase (table_rows (diaSources st')) = map erase (table_rows (diaSources st))"
proof -
  let ?rows = "filter (\<lambda>r. ccdVisitId r = v) (table_rows (diaSources st))"
  have rows: "\<forall>s \<in> set ?rows. ccdVisitId s = v" by simp
  have sub: "set (map erase ?rows) \<subseteq> set (map erase (table_rows (diaSources st)))" by auto
  show ?thesis
  proof (cases "length (diaObjectCat st) = 0")
    case True
    have "P (d @ map erase ?rows) (first_visit_loop L cfg idf v st ?rows)
       \<and> parallel_lists (first_visit_loop L cfg idf v st ?rows)
       \<and> map erase (table_rows (diaSources (first_visit_loop L cfg idf v st ?rows)))
           = map erase (table_rows (diaSources st))"
      by (rule first_visit_loop_inv [where P = P]) (fact add assms(3,4) rows sub)+
    with True show ?thesis
      by (simp add: process_visit_def erase_filter_visit)
  next
    case False
    have "\<exists>st'. later_visit_loop L cfg idf v st [] ?rows = Inr st'
       \<and> P (d @ map erase ?rows) st' \<and> parallel_lists st'
       \<and> map erase (table_rows (diaSources st')) = map erase (table_rows (diaSources st))"
      by (rule later_visit_loop_inv [where P = P]) (fact add upd assms(3,4) rows sub)+
    with False show ?thesis
      by (simp add: process_visit_def erase_filter_visit)
  qed
qed

lemma visits_loop_inv:
  fixes P :: "'x diaSource list \<Rightarrow> 'x engine \<Rightarrow> bool"
  assumes add: "\<And>d st s v. P d st \<Longrightarrow> parallel_lists st \<Longrightarrow> ccdVisitId s = v \<Longrightarrow>
       erase s \<in> set (map erase (table_rows (diaSources st))) \<Longrightarrow>
       P (d @ [erase s]) (addNewDiaObject L cfg idf s v (diaSourceId s) st)"
    and upd: "\<And>d st s st' v. P d st \<Longrightarrow> parallel_lists st \<Longrightarrow> ccdVisitId s = v \<Longrightarrow>
       erase s \<in> set (map erase (table_rows (diaSources st))) \<Longrightarrow>
       matched L cfg s st \<Longrightarrow>
       updateCatalogs L cfg (nearest L cfg s st) s v (diaSourceId s) st = Inr st' \<Longrightarrow>
       P (d @ [erase s]) st'"
    and "P d st" "parallel_lists st"
  shows "\<exists>st'. visits_loop L cfg idf st vs = Inr st'
       \<and> P (d @ concat (map (\<lambda>v. filter (\<lambda>r. ccdVisitId r = v)
                                 (map erase (table_rows (diaSources st)))) vs)) st'
       \<and> parallel_lists st'
       \<and> map erase (table_rows (diaSources st')) = map erase (table_rows (diaSources st))"
  using assms(3-)
proof (induction vs arbitrary: d st)
  case Nil
  then show ?case by simp
next
  case (Cons v vs)
  have "\<exists>st'. process_visit L cfg idf st v = Inr st'
       \<and> P (d @ filter (\<lambda>r. ccdVisitId r = v) (map erase (table_rows (diaSources st)))) st'
       \<and> parallel_lists st'
       \<and> map erase (table_rows (diaSources st')) = map erase (table_rows (diaSources st))"
    by (rule process_visit_inv [where P = P]) (fact add upd Cons.prems)+
  then obtain st1 where 1: "process_visit L cfg idf st v = Inr st1"
    "P (d @ filter (\<lambda>r. ccdVisitId r = v) (map erase (table_rows (diaSources st)))) st1"
    "parallel_lists st1"
    "map erase (table_rows (diaSources st1)) = map erase (table_rows (diaSources st))"
    by blast
  from Cons.IH [OF 1(2,3)] 1(1,4) show ?case by simp
qed

lemma run_engine_inv:
  fixes P :: "'x diaSource list \<Rightarrow> 'x engine \<Rightarrow> bool"
  assumes add: "\<And>d st s v. P d st \<Longrightarrow> parallel_lists st \<Longrightarrow> ccdVisitId s = v \<Longrightarrow>
       erase s \<in> set (map erase (table_rows (diaSources st))) \<Longrightarrow>
       P (d @ [erase s])
         (addNewDiaObject L cfg (makeSource L tp (64 - bits)) s v (diaSourceId s) st)"
    and upd: "\<And>d st s st' v. P d st \<Longrightarrow> parallel_lists st \<Longrightarrow> ccdVisitId s = v \<Longrightarrow>
       erase s \<in> set (map erase (table_rows (diaSources st))) \<Longrightarrow>
       matched L cfg s st \<Longrightarrow>
       updateCatalogs L cfg (nearest L cfg s st) s v (diaSourceId s) st = Inr st' \<Longrightarrow>
       P (d @ [erase s]) st'"
    and "P [] (init_engine srcs)"
  shows "\<exists>st. run_engine L cfg srcs tp bits = Inr st
       \<and> P (processing_order (map erase (table_rows srcs))) st
       \<and> parallel_lists st
       \<and> map erase (table_rows (diaSources st)) = map erase (table_rows srcs)"
proof -
  let ?vs = "sort (remdups (map ccdVisitId (table_rows srcs)))"
  let ?idf = "makeSource L tp (64 - bits)"
  have vs: "map ccdVisitId (map erase (table_rows srcs)) = map ccdVisitId (table_rows srcs)"
    by simp
  have ds: "diaSources (init_engine srcs) = srcs" by (simp add: init_engine_def)
  have "\<exists>st'. visits_loop L cfg ?idf (init_engine srcs) ?vs = Inr st'
       \<and> P ([] @ concat (map (\<lambda>v. filter (\<lambda>r. ccdVisitId r = v)
                 (map erase (table_rows (diaSources (init_engine srcs))))) ?vs)) st'
       \<and> parallel_lists st'
       \<and> map erase (table_rows (diaSources st'))
           = map erase (table_rows (diaSources (init_engine srcs)))"
    by (rule visits_loop_inv [where P = P]) (fact add upd assms(3) parallel_lists_init)+
  then show ?thesis
    unfolding run_engine_def Let_def processing_order_def vs ds by simp
qed

lemma sum_list_update_int:
  fixes xs :: "int list"
  shows "i < length xs \<Longrightarrow> sum_list (xs[i := y]) = sum_list xs - xs ! i + y"
proof (induction xs arbitrary: i)
  case Nil
  then show ?case by simp
next
  case (Cons x xs)
  then show ?case by (cases i) auto
qed

lemma count_visits:
  fixes f :: "'a \<Rightarrow> int"
  assumes "distinct vs" "f ` set rows \<subseteq> set vs"
  shows "(\<Sum>v\<leftarrow>vs. length (filter (\<lambda>r. f r = v) rows)) = length rows"
  using assms(2)
proof (induction rows)
  case Nil
  then show ?case by simp
next
  case (Cons r rows)
  have "(\<Sum>v\<leftarrow>vs. length (filter (\<lambda>r. f r = v) (r # rows)))
      = (\<Sum>v\<leftarrow>vs. (if f r = v then 1 else 0) + length (filter (\<lambda>r. f r = v) rows))"
    by (rule arg_cong [where f = sum_list]) simp
  also have "\<dots> = (\<Sum>v\<leftarrow>vs. if f r = v then 1 else 0)
                  + (\<Sum>v\<leftarrow>vs. length (filter (\<lambda>r. f r = v) rows))"
    by (simp add: sum_list_addf)
  also have "(\<Sum>v\<leftarrow>vs. if f r = v then 1 else 0) = (1::nat)"
    using assms(1) Cons.prems
    by (simp add: sum_list_distinct_conv_sum_set sum.delta')
  finally show ?case using Cons by simp
qed

lemma length_processing_order: "length (processing_order rows) = length rows"
proof -
  let ?vs = "sort (remdups (map ccdVisitId rows))"
  have "length (processing_order rows)
      = (\<Sum>v\<leftarrow>?vs. length (filter (\<lambda>r. ccdVisitId r = v) rows))"
    by (simp add: processing_order_def length_concat comp_def)
  also have "\<dots> = length rows"
    by (rule count_visits) simp_all
  finally show ?thesis .
qed

lemma set_processing_order: "set (processing_order rows) = set rows"
  by (auto simp: processing_order_def)

section \<open>Two runs on tables that differ in the \<open>diaObjectId\<close> column\<close>

lemma list_all2_filter:
  assumes "list_all2 R xs ys" "\<And>x y. R x y \<Longrightarrow> P x = Q y"
  shows "list_all2 R (filter P xs) (filter Q ys)"
  using assms(1)
proof (induction xs ys rule: list_all2_induct)
  case Nil
  then show ?case by simp
next
  case (Cons x xs y ys)
  with assms(2) [OF Cons.hyps(1)] show ?case by simp
qed

lemma visit_keys_erase:
  "(\<lambda>r. (ccdVisitId r, diaSourceId r)) ` {r \<in> set rows. ccdVisitId r \<in> V}
     = (\<lambda>r. (ccdVisitId r, diaSourceId r)) ` {r \<in> set (map erase rows). ccdVisitId r \<in> V}"
proof -
  have "(\<lambda>r. (ccdVisitId r, diaSourceId r)) ` {r \<in> set (map erase rows). ccdVisitId r \<in> V}
      = (\<lambda>r. (ccdVisitId r, diaSourceId r)) ` erase ` {r \<in> set rows. ccdVisitId r \<in> V}"
    by (rule arg_cong [where f = "image _"]) auto
  also have "\<dots> = (\<lambda>r. (ccdVisitId r, diaSourceId r)) ` {r \<in> set rows. ccdVisitId r \<in> V}"
    by (simp add: image_image)
  finally show ?thesis by simp
qed

lemma table_rows_set_diaObjectId:
  "table_rows (set_diaObjectId v k i tbl) =
     map (\<lambda>r. if ccdVisitId r = v \<and> diaSourceId r = k
              then r\<lparr>src_diaObjectId := Some (stored_value (diaObjectId_dtype tbl) i)\<rparr> else r)
       (table_rows tbl)"
  by (simp add: set_diaObjectId_def)

lemma same_kind_stored:
  "(d = Int64) = (d' = Int64) \<Longrightarrow> stored_value d i = stored_value d' i"
  by (simp add: stored_value_def)

lemma same_kind_after_write:
  "(d = Int64) = (d' = Int64) \<Longrightarrow> dtype_after_write d = dtype_after_write d'"
  by (simp add: dtype_after_write_def)

lemma dtype_after_write_Int64 [simp]: "(dtype_after_write d = Int64) = (d = Int64)"
  by (simp add: dtype_after_write_def)

lemma rows_agree_set:
  assumes "rows_agree K rows rows'"
  shows "rows_agree (insert (v, k) K)
     (map (\<lambda>r. if ccdVisitId r = v \<and> diaSourceId r = k
              then r\<lparr>src_diaObjectId := Some i\<rparr> else r) rows)
     (map (\<lambda>r. if ccdVisitId r = v \<and> diaSourceId r = k
              then r\<lparr>src_diaObjectId := Some i\<rparr> else r) rows')"
proof -
  have step: "erase (if ccdVisitId r = v \<and> diaSourceId r = k
                    then r\<lparr>src_diaObjectId := Some i\<rparr> else r)
            = erase (if ccdVisitId r' = v \<and> diaSourceId r' = k
                    then r'\<lparr>src_diaObjectId := Some i\<rparr> else r')
        \<and> ((ccdVisitId (if ccdVisitId r = v \<and> diaSourceId r = k
                    then r\<lparr>src_diaObjectId := Some i\<rparr> else r),
             diaSourceId (if ccdVisitId r = v \<and> diaSourceId r = k
                    then r\<lparr>src_diaObjectId := Some i\<rparr> else r)) \<in> insert (v, k) K
            \<longrightarrow> (if ccdVisitId r = v \<and> diaSourceId r = k
                    then r\<lparr>src_diaObjectId := Some i\<rparr> else r)
              = (if ccdVisitId r' = v \<and> diaSourceId r' = k
                    then r'\<lparr>src_diaObjectId := Some i\<rparr> else r'))"
    if h: "erase r = erase r' \<and> ((ccdVisitId r, diaSourceId r) \<in> K \<longrightarrow> r = r')"
    for r r' :: "'a diaSource"
  proof -
    from h have e: "erase r = erase r'" by simp
    note f = erase_eq_fields [OF e]
    show ?thesis
    proof (cases "ccdVisitId r = v \<and> diaSourceId r = k")
      case True
      with f have "ccdVisitId r' = v \<and> diaSourceId r' = k" by simp
      with True e erase_update_eq [OF e] show ?thesis by simp
    next
      case False
      with f have "\<not> (ccdVisitId r' = v \<and> diaSourceId r' = k)" by simp
      with False h show ?thesis by auto
    qed
  qed
  from assms show ?thesis
    unfolding rows_agree_def list_all2_map1 list_all2_map2
    by (rule list_all2_mono) (rule step)
qed

lemma engines_agree_set:
  assumes "engines_agree K st st'"
  shows "rows_agree (insert (v, k) K)
           (table_rows (set_diaObjectId v k i (diaSources st)))
           (table_rows (set_diaObjectId v k i (diaSources st')))"
    and "diaObjectId_dtype (set_diaObjectId v k i (diaSources st))
           = diaObjectId_dtype (set_diaObjectId v k i (diaSources st'))"
proof -
  from assms have kind: "(diaObjectId_dtype (diaSources st) = Int64)
          = (diaObjectId_dtype (diaSources st') = Int64)"
    and rows: "rows_agree K (table_rows (diaSources st)) (table_rows (diaSources st'))"
    by (simp_all add: engines_agree_def)
  show "rows_agree (insert (v, k) K)
           (table_rows (set_diaObjectId v k i (diaSources st)))
           (table_rows (set_diaObjectId v k i (diaSources st')))"
    unfolding table_rows_set_diaObjectId same_kind_stored [OF kind]
    by (rule rows_agree_set [OF rows])
  show "diaObjectId_dtype (set_diaObjectId v k i (diaSources st))
           = diaObjectId_dtype (set_diaObjectId v k i (diaSources st'))"
    by (simp add: same_kind_after_write [OF kind])
qed

lemma engines_agree_addNew:
  assumes "engines_agree K st st'" "erase s = erase s'"
  shows "engines_agree (insert (v, diaSourceId s) K)
           (addNewDiaObject L cfg idf s v (diaSourceId s) st)
           (addNewDiaObject L cfg idf s' v (diaSourceId s') st')"
proof -
  note f = erase_eq_fields [OF assms(2)]
  from assms(1) have same: "diaObjectCat st = diaObjectCat st'"
    "diaObjectCoords st = diaObjectCoords st'" "healPixIndices st = healPixIndices st'"
    "idCat st = idCat st'"
    by (simp_all add: engines_agree_def)
  note w = engines_agree_set [OF assms(1), of v "diaSourceId s" "idf (idCat st')"]
  show ?thesis
    unfolding engines_agree_def
    using same f w by simp
qed

lemma engines_agree_update:
  assumes "engines_agree K st st'" "erase s = erase s'"
  shows "rel_sum (=) (engines_agree (insert (v, diaSourceId s) K))
           (updateCatalogs L cfg i s v (diaSourceId s) st)
           (updateCatalogs L cfg i s' v (diaSourceId s') st')"
proof -
  note f = erase_eq_fields [OF assms(2)]
  from assms(1) have same: "diaObjectCat st = diaObjectCat st'"
    "diaObjectCoords st = diaObjectCoords st'" "healPixIndices st = healPixIndices st'"
    "idCat st = idCat st'"
    by (simp_all add: engines_agree_def)
  note w = engines_agree_set [OF assms(1), of v "diaSourceId s"
      "diaObjectId (diaObjectCat st' ! i)"]
  show ?thesis
    unfolding updateCatalogs_def Let_def engines_agree_def
    using same f w by simp
qed

lemma engines_agree_associate:
  assumes a: "engines_agree K st st'" and e: "erase s = erase s'"
  shows "rel_sum (=) (\<lambda>(a, u) (b, u'). engines_agree (insert (v, diaSourceId s) K) a b \<and> u = u')
           (associate_source L cfg idf v st used s)
           (associate_source L cfg idf v st' used s')"
proof -
  note f = erase_eq_fields [OF e]
  from a have same: "healPixIndices st' = healPixIndices st" "diaObjectCat st' = diaObjectCat st"
    by (simp_all add: engines_agree_def)
  have fm: "findMatches L cfg (src_ra s') (src_decl s') (2 * tolerance cfg)
              (healPixIndices st') (diaObjectCat st')
          = findMatches L cfg (src_ra s) (src_decl s) (2 * tolerance cfg)
              (healPixIndices st) (diaObjectCat st)"
    using f same by simp
  have add: "engines_agree (insert (v, diaSourceId s) K)
           (addNewDiaObject L cfg idf s v (diaSourceId s) st)
           (addNewDiaObject L cfg idf s' v (diaSourceId s') st')"
    by (rule engines_agree_addNew [OF a e])
  have upd: "rel_sum (=) (engines_agree (insert (v, diaSourceId s) K))
           (updateCatalogs L cfg i s v (diaSourceId s) st)
           (updateCatalogs L cfg i s' v (diaSourceId s') st')" for i
    by (rule engines_agree_update [OF a e])
  let ?fm = "findMatches L cfg (src_ra s) (src_decl s) (2 * tolerance cfg)
              (healPixIndices st) (diaObjectCat st)"
  show ?thesis
  proof (cases ?fm)
    case (Inl err)
    then show ?thesis
      unfolding associate_source_def fm by simp
  next
    case (Inr r)
    show ?thesis
    proof (cases r)
      case None
      with Inr add show ?thesis
        unfolding associate_source_def fm by simp
    next
      case (Some p)
      obtain ds ms where p: "p = (ds, ms)" by (cases p)
      note u = upd [of "ms ! np_argmin ds"]
      show ?thesis
        unfolding associate_source_def fm Inr Some p
        using add u
        by (auto simp: Let_def rel_sum.simps split: sum.splits)
    qed
  qed
qed

lemma engines_agree_first_visit_loop:
  assumes "list_all2 (\<lambda>s s'. erase s = erase s') rows rows'" "engines_agree K st st'"
  shows "engines_agree (K \<union> (\<lambda>r. (v, diaSourceId r)) ` set rows)
           (first_visit_loop L cfg idf v st rows) (first_visit_loop L cfg idf v st' rows')"
  using assms
proof (induction rows rows' arbitrary: K st st' rule: list_all2_induct)
  case Nil
  then show ?case by simp
next
  case (Cons s rows s' rows')
  from Cons.IH [OF engines_agree_addNew [OF Cons.prems Cons.hyps(1)]]
  show ?case by simp
qed

lemma engines_agree_later_visit_loop:
  assumes "list_all2 (\<lambda>s s'. erase s = erase s') rows rows'" "engines_agree K st st'"
  shows "rel_sum (=) (engines_agree (K \<union> (\<lambda>r. (v, diaSourceId r)) ` set rows))
           (later_visit_loop L cfg idf v st used rows)
           (later_visit_loop L cfg idf v st' used rows')"
  using assms
proof (induction rows rows' arbitrary: K st st' used rule: list_all2_induct)
  case Nil
  then show ?case by simp
next
  case (Cons s rows s' rows')
  note step = engines_agree_associate [OF Cons.prems Cons.hyps(1), of v L cfg idf used]
  show ?case
  proof (cases "associate_source L cfg idf v st used s")
    case (Inl err)
    with step show ?thesis by (auto simp: rel_sum.simps)
  next
    case (Inr p)
    obtain st1 used1 where p: "p = (st1, used1)" by (cases p)
    from step Inr p obtain st1' where r: "associate_source L cfg idf v st' used s' = Inr (st1', used1)"
      and a: "engines_agree (insert (v, diaSourceId s) K) st1 st1'"
      by (auto simp: rel_sum.simps)
    from Cons.IH [OF a, of used1] Inr p r show ?thesis by simp
  qed
qed

lemma rows_agree_visit:
  assumes "rows_agree K rows rows'"
  shows "list_all2 (\<lambda>s s'. erase s = erase s')
           (filter (\<lambda>r. ccdVisitId r = v) rows) (filter (\<lambda>r. ccdVisitId r = v) rows')"
proof -
  from assms have "list_all2 (\<lambda>s s'. erase s = erase s') rows rows'"
    unfolding rows_agree_def by (rule list_all2_mono) simp
  then show ?thesis
  proof (rule list_all2_filter)
    fix x y :: "'a diaSource"
    assume "erase x = erase y"
    from erase_eq_fields [OF this] show "(ccdVisitId x = v) = (ccdVisitId y = v)" by simp
  qed
qed

lemma engines_agree_process_visit:
  assumes "engines_agree K st st'"
  shows "rel_sum (=)
           (engines_agree (K \<union> (\<lambda>r. (ccdVisitId r, diaSourceId r))
                                  ` {r \<in> set (table_rows (diaSources st)). ccdVisitId r = v}))
           (process_visit L cfg idf st v) (process_visit L cfg idf st' v)"
proof -
  let ?rows = "filter (\<lambda>r. ccdVisitId r = v) (table_rows (diaSources st))"
  let ?rows' = "filter (\<lambda>r. ccdVisitId r = v) (table_rows (diaSources st'))"
  have keys: "(\<lambda>r. (v, diaSourceId r)) ` set ?rows
      = (\<lambda>r. (ccdVisitId r, diaSourceId r)) ` {r \<in> set (table_rows (diaSources st)). ccdVisitId r = v}"
    by auto
  from assms have "rows_agree K (table_rows (diaSources st)) (table_rows (diaSources st'))"
    by (simp add: engines_agree_def)
  then have rows: "list_all2 (\<lambda>s s'. erase s = erase s') ?rows ?rows'"
    by (rule rows_agree_visit)
  from assms have cat: "diaObjectCat st' = diaObjectCat st"
    by (simp add: engines_agree_def)
  show ?thesis
    unfolding process_visit_def Let_def cat keys [symmetric]
    using engines_agree_first_visit_loop [OF rows assms, of v L cfg idf]
      engines_agree_later_visit_loop [OF rows assms, of v L cfg idf "[]"]
    by simp
qed

lemma engines_agree_visits_loop:
  assumes "engines_agree K st st'"
  shows "rel_sum (=)
           (engines_agree (K \<union> (\<lambda>r. (ccdVisitId r, diaSourceId r))
                                  ` {r \<in> set (table_rows (diaSources st)). ccdVisitId r \<in> set vs}))
           (visits_loop L cfg idf st vs) (visits_loop L cfg idf st' vs)"
  using assms
proof (induction vs arbitrary: K st st')
  case Nil
  then show ?case by simp
next
  case (Cons v vs)
  let ?key = "\<lambda>r :: 'a diaSource. (ccdVisitId r, diaSourceId r)"
  note step = engines_agree_process_visit [OF Cons.prems, of v L cfg idf]
  show ?case
  proof (cases "process_visit L cfg idf st v")
    case (Inl err)
    with step show ?thesis by (auto simp: rel_sum.simps)
  next
    case (Inr st1)
    with step obtain st1' where r: "process_visit L cfg idf st' v = Inr st1'"
      and a: "engines_agree (K \<union> ?key ` {r \<in> set (table_rows (diaSources st)). ccdVisitId r = v}) st1 st1'"
      by (auto simp: rel_sum.simps)
    have fr: "map erase (table_rows (diaSources st1)) = map erase (table_rows (diaSources st))"
      by (rule process_visit_frame [OF Inr])
    have "?key ` {r \<in> set (table_rows (diaSources st1)). ccdVisitId r \<in> set vs}
        = ?key ` {r \<in> set (map erase (table_rows (diaSources st1))). ccdVisitId r \<in> set vs}"
      by (rule visit_keys_erase)
    also have "\<dots> = ?key ` {r \<in> set (map erase (table_rows (diaSources st))). ccdVisitId r \<in> set vs}"
      by (simp only: fr)
    also have "\<dots> = ?key ` {r \<in> set (table_rows (diaSources st)). ccdVisitId r \<in> set vs}"
      by (rule visit_keys_erase [symmetric])
    finally have keys: "?key ` {r \<in> set (table_rows (diaSources st1)). ccdVisitId r \<in> set vs}
              = ?key ` {r \<in> set (table_rows (diaSources st)). ccdVisitId r \<in> set vs}" .
    have K: "K \<union> ?key ` {r \<in> set (table_rows (diaSources st)). ccdVisitId r = v}
               \<union> ?key ` {r \<in> set (table_rows (diaSources st)). ccdVisitId r \<in> set vs}
           = K \<union> ?key ` {r \<in> set (table_rows (diaSources st)). ccdVisitId r \<in> set (v # vs)}"
      by auto
    from Cons.IH [OF a] Inr r show ?thesis
      unfolding keys K by simp
  qed
qed

lemma dtype_after_write_idem [simp]: "dtype_after_write (dtype_after_write d) = dtype_after_write d"
  by (simp add: dtype_after_write_def)

lemma run_engine_dtype:
  fixes t :: "'x diaSourceTable"
  assumes "run_engine L cfg t tp bits = Inr st"
  shows "diaObjectId_dtype (diaSources st)
       = (if table_rows t = [] then diaObjectId_dtype t else dtype_after_write (diaObjectId_dtype t))"
    and "map erase (table_rows (diaSources st)) = map erase (table_rows t)"
proof -
  let ?P = "\<lambda>(d :: 'x diaSource list) (st :: 'x engine).
      diaObjectId_dtype (diaSources st)
        = (if d = [] then diaObjectId_dtype t else dtype_after_write (diaObjectId_dtype t))"
  have "\<exists>st. run_engine L cfg t tp bits = Inr st
       \<and> ?P (processing_order (map erase (table_rows t))) st
       \<and> parallel_lists st
       \<and> map erase (table_rows (diaSources st)) = map erase (table_rows t)"
  proof (rule run_engine_inv [where P = ?P])
    fix d :: "'x diaSource list" and st st' :: "'x engine" and s :: "'x diaSource" and v
    assume p: "?P d st"
      and u: "updateCatalogs L cfg (nearest L cfg s st) s v (diaSourceId s) st = Inr st'"
    from p show "?P (d @ [erase s]) st'"
      unfolding updateCatalogs_Inr(8) [OF u] by simp
  qed (simp_all add: init_engine_def)
  with assms have p: "?P (processing_order (map erase (table_rows t))) st"
    and e: "map erase (table_rows (diaSources st)) = map erase (table_rows t)"
    by simp_all
  have "(processing_order (map erase (table_rows t)) = []) = (table_rows t = [])"
    using length_processing_order [of "map erase (table_rows t)"]
    by (metis length_0_conv length_map)
  with p show "diaObjectId_dtype (diaSources st)
       = (if table_rows t = [] then diaObjectId_dtype t else dtype_after_write (diaObjectId_dtype t))"
    by simp
  from e show "map erase (table_rows (diaSources st)) = map erase (table_rows t)" .
qed

lemma run_same_rows:
  fixes t t' :: "'x diaSourceTable"
  assumes same: "map erase (table_rows t') = map erase (table_rows t)"
    and kind: "(diaObjectId_dtype t = Int64) = (diaObjectId_dtype t' = Int64)"
    and empty: "table_rows t = [] \<Longrightarrow> diaObjectId_dtype t' = diaObjectId_dtype t"
  shows "run L cfg t' tractPatchId skymapBits = run L cfg t tractPatchId skymapBits"
proof (cases "table_rows t = []")
  case True
  with same have "table_rows t' = []" by simp
  with True empty have "t' = t" by simp
  then show ?thesis by simp
next
  case False
  let ?key = "\<lambda>r :: 'x diaSource. (ccdVisitId r, diaSourceId r)"
  let ?vs = "sort (remdups (map ccdVisitId (table_rows t)))"
  let ?idf = "makeSource L tractPatchId (64 - skymapBits)"
  let ?K = "{} \<union> ?key ` {r \<in> set (table_rows (diaSources (init_engine t))). ccdVisitId r \<in> set ?vs}"
  have "map ccdVisitId (map erase (table_rows t')) = map ccdVisitId (map erase (table_rows t))"
    by (simp only: same)
  then have vs: "map ccdVisitId (table_rows t') = map ccdVisitId (table_rows t)"
    by (simp add: comp_def)
  have "list_all2 (=) (map erase (table_rows t)) (map erase (table_rows t'))"
    by (simp add: same list.rel_eq)
  then have "rows_agree {} (table_rows t) (table_rows t')"
    by (simp add: rows_agree_def list_all2_map1 list_all2_map2)
  with kind have "engines_agree {} (init_engine t) (init_engine t')"
    by (simp add: engines_agree_def init_engine_def)
  then have rel: "rel_sum (=) (engines_agree ?K)
      (visits_loop L cfg ?idf (init_engine t) ?vs)
      (visits_loop L cfg ?idf (init_engine t') ?vs)"
    by (rule engines_agree_visits_loop)
  have K: "?K = ?key ` set (table_rows t)"
    by (auto simp: init_engine_def)
  from False have Kne: "?key ` set (table_rows t) \<noteq> {}" by simp
  show ?thesis
  proof (cases "visits_loop L cfg ?idf (init_engine t) ?vs")
    case (Inl err)
    with rel have "visits_loop L cfg ?idf (init_engine t') ?vs = Inl err"
      by (auto simp: rel_sum.simps)
    with Inl show ?thesis
      by (simp add: run_def run_engine_def vs)
  next
    case (Inr st)
    with rel obtain st' where r: "visits_loop L cfg ?idf (init_engine t') ?vs = Inr st'"
      and a: "engines_agree (?key ` set (table_rows t)) st st'"
      unfolding K by (auto simp: rel_sum.simps)
    have fr: "map erase (table_rows (diaSources st)) = map erase (table_rows t)"
      using visits_loop_frame [OF Inr] by (simp add: init_engine_def)
    have mem: "?key x \<in> ?key ` set (table_rows t)" if "x \<in> set (table_rows (diaSources st))" for x
    proof -
      from that have "erase x \<in> set (map erase (table_rows t))"
        unfolding fr [symmetric] by simp
      then obtain y where "y \<in> set (table_rows t)" "erase x = erase y" by auto
      with erase_eq_fields [of x y] show ?thesis by auto
    qed
    from a have "list_all2 (\<lambda>r r'. erase r = erase r'
           \<and> (?key r \<in> ?key ` set (table_rows t) \<longrightarrow> r = r'))
        (table_rows (diaSources st)) (table_rows (diaSources st'))"
      by (simp add: engines_agree_def rows_agree_def)
    then have "list_all2 (=) (table_rows (diaSources st)) (table_rows (diaSources st'))"
      by (rule list.rel_mono_strong) (use mem in blast)
    then have rows: "table_rows (diaSources st') = table_rows (diaSources st)"
      by (simp add: list.rel_eq)
    from a Kne have "diaObjectId_dtype (diaSources st') = diaObjectId_dtype (diaSources st)"
      by (simp add: engines_agree_def)
    with rows have "diaSources st' = diaSources st" by simp
    with a Inr r show ?thesis
      by (simp add: run_def run_engine_def vs engines_agree_def)
  qed
qed

section \<open>Coordinate histories and the sources that carry an id\<close>

lemma source_key_erase [simp]: "source_key (erase r) = source_key r"
  by (simp add: source_key_def)

lemma source_point_erase [simp]: "source_point (erase r) = source_point r"
  by (simp add: source_point_def)

lemma source_key_update [simp]: "source_key (r\<lparr>src_diaObjectId := x\<rparr>) = source_key r"
  by (simp add: source_key_def)

lemma source_point_update [simp]: "source_point (r\<lparr>src_diaObjectId := x\<rparr>) = source_point r"
  by (simp add: source_point_def)

lemma stored_value_after_write [simp]:
  "stored_value (dtype_after_write d) v = stored_value d v"
  by (simp add: stored_value_def dtype_after_write_def)

lemma image_filter_map_cong:
  assumes "\<And>r. r \<in> set rows \<Longrightarrow> g (f r) = g r \<and> (Q (f r) \<longleftrightarrow> P r)"
  shows "image_mset g (filter_mset Q (mset (map f rows))) = image_mset g (filter_mset P (mset rows))"
  using assms by (induction rows) auto

lemma filter_key_single:
  assumes "distinct (map f xs)" "x \<in> set xs"
  shows "filter_mset (\<lambda>r. f r = f x) (mset xs) = {#x#}"
  using assms
proof (induction xs)
  case Nil
  then show ?case by simp
next
  case (Cons y ys)
  show ?case
  proof (cases "x = y")
    case True
    with Cons.prems(1) have "\<forall>r \<in> set ys. f r \<noteq> f x" by (auto simp: image_iff)
    then have "filter_mset (\<lambda>r. f r = f x) (mset ys) = {#}"
      by simp
    with True show ?thesis by simp
  next
    case False
    with Cons.prems have "x \<in> set ys" "f y \<noteq> f x" by auto
    with Cons.IH Cons.prems(1) show ?thesis by simp
  qed
qed

lemma points_of_key:
  fixes s :: "'x diaSource"
  assumes "distinct (map source_key rows)" "erase s \<in> set (map erase rows)"
  shows "image_mset source_point (filter_mset (\<lambda>r. source_key r = source_key s) (mset rows))
           = {#source_point s#}"
proof -
  from assms(2) obtain r0 where r0: "r0 \<in> set rows" "erase r0 = erase s" by auto
  have k: "source_key r0 = source_key s"
    using arg_cong [OF r0(2), of source_key] by simp
  have p: "source_point r0 = source_point s"
    using arg_cong [OF r0(2), of source_point] by simp
  from filter_key_single [OF assms(1) r0(1)] show ?thesis
    by (simp add: k p)
qed

lemma set_diaObjectId_rows:
  "table_rows (set_diaObjectId (ccdVisitId s) (diaSourceId s) i tbl) =
     map (\<lambda>r. if source_key r = source_key s
              then r\<lparr>src_diaObjectId := Some (stored_value (diaObjectId_dtype tbl) i)\<rparr> else r)
       (table_rows tbl)"
  by (simp add: set_diaObjectId_def source_key_def)

lemma mean_and_cell_init: "mean_and_cell L cfg idf {} (init_engine t)"
  by (simp add: mean_and_cell_def init_engine_def)

lemma mean_and_cell_addNew:
  fixes st :: "'x engine"
  assumes avg: "\<forall>p. averageSpherePoint L [p] = p"
    and J: "mean_and_cell L cfg idf K st"
    and N: "next_source idf K st s"
  shows "mean_and_cell L cfg idf (insert (source_key s) K)
           (addNewDiaObject L cfg idf s (ccdVisitId s) (diaSourceId s) st)"
proof -
  let ?n = "length (diaObjectCat st)"
  let ?tbl = "diaSources st"
  let ?sto = "stored_value (diaObjectId_dtype ?tbl)"
  let ?new = "idf ?n"
  let ?k = "source_key s"
  let ?upd = "\<lambda>r :: 'x diaSource. if source_key r = ?k
                then r\<lparr>src_diaObjectId := Some (?sto ?new)\<rparr> else r"
  let ?tbl' = "set_diaObjectId (ccdVisitId s) (diaSourceId s) ?new ?tbl"
  let ?st' = "addNewDiaObject L cfg idf s (ccdVisitId s) (diaSourceId s) st"
  from J have len: "length (diaObjectCoords st) = ?n" "length (healPixIndices st) = ?n"
    and idc: "idCat st = ?n"
    and objs: "\<And>i. i < ?n \<Longrightarrow> diaObjectId (diaObjectCat st ! i) = idf i
           \<and> SpherePoint (ra (diaObjectCat st ! i)) (decl (diaObjectCat st ! i))
               = averageSpherePoint L (diaObjectCoords st ! i)
           \<and> mset (diaObjectCoords st ! i)
               = assigned_points K ?tbl (diaObjectId (diaObjectCat st ! i))
           \<and> healPixIndices st ! i
               = toIndex L (nside cfg) (ra (diaObjectCat st ! i)) (decl (diaObjectCat st ! i))"
    and rowsJ: "\<And>r. r \<in> set (table_rows ?tbl) \<Longrightarrow> source_key r \<in> K \<Longrightarrow>
           \<exists>i < ?n. src_diaObjectId r = Some (?sto (idf i))"
    by (simp_all add: mean_and_cell_def)
  from N have dist: "distinct (map source_key (table_rows ?tbl))"
    and mem: "erase s \<in> set (map erase (table_rows ?tbl))"
    and fresh: "?k \<notin> K"
    and inj: "inj_on (\<lambda>k. ?sto (idf k)) {..?n}"
    by (simp_all add: next_source_def idc)
  have inj_eq: "(?sto (idf i) = ?sto (idf j)) = (i = j)" if "i \<le> ?n" "j \<le> ?n" for i j
    using inj that by (auto simp: inj_on_def)
  have rows': "table_rows ?tbl' = map ?upd (table_rows ?tbl)"
    by (rule set_diaObjectId_rows)
  have old: "assigned_points (insert ?k K) ?tbl' (idf i) = assigned_points K ?tbl (idf i)"
    if i: "i < ?n" for i
    unfolding assigned_points_def rows' dtype_set_diaObjectId stored_value_after_write
  proof (rule image_filter_map_cong)
    fix r assume r: "r \<in> set (table_rows ?tbl)"
    show "source_point (?upd r) = source_point r
       \<and> ((source_key (?upd r) \<in> insert ?k K \<and> src_diaObjectId (?upd r) = Some (?sto (idf i)))
            \<longleftrightarrow> (source_key r \<in> K \<and> src_diaObjectId r = Some (?sto (idf i))))"
      using fresh i inj_eq [of ?n i] by auto
  qed
  have new: "assigned_points (insert ?k K) ?tbl' ?new = {#source_point s#}"
  proof -
    have "assigned_points (insert ?k K) ?tbl' ?new
        = image_mset source_point
            (filter_mset (\<lambda>r. source_key r = ?k) (mset (table_rows ?tbl)))"
      unfolding assigned_points_def rows' dtype_set_diaObjectId stored_value_after_write
    proof (rule image_filter_map_cong)
      fix r assume r: "r \<in> set (table_rows ?tbl)"
      have "\<not> (source_key r \<in> K \<and> src_diaObjectId r = Some (?sto ?new))"
      proof
        assume a: "source_key r \<in> K \<and> src_diaObjectId r = Some (?sto ?new)"
        with rowsJ [OF r] obtain j where "j < ?n" "src_diaObjectId r = Some (?sto (idf j))"
          by blast
        with a inj_eq [of j ?n] show False by simp
      qed
      then show "source_point (?upd r) = source_point r
         \<and> ((source_key (?upd r) \<in> insert ?k K \<and> src_diaObjectId (?upd r) = Some (?sto ?new))
              \<longleftrightarrow> source_key r = ?k)"
        by auto
    qed
    with points_of_key [OF dist mem] show ?thesis by simp
  qed
  have cat': "diaObjectCat ?st' = diaObjectCat st @ [createDiaObject ?new (src_ra s) (src_decl s)]"
    and coords': "diaObjectCoords ?st' = diaObjectCoords st @ [[SpherePoint (src_ra s) (src_decl s)]]"
    and hp': "healPixIndices ?st' = healPixIndices st @ [toIndex L (nside cfg) (src_ra s) (src_decl s)]"
    and id': "idCat ?st' = Suc ?n"
    and tbl': "diaSources ?st' = ?tbl'"
    by (simp_all add: idc)
  have obj: "diaObjectId (diaObjectCat ?st' ! i) = idf i
           \<and> SpherePoint (ra (diaObjectCat ?st' ! i)) (decl (diaObjectCat ?st' ! i))
               = averageSpherePoint L (diaObjectCoords ?st' ! i)
           \<and> mset (diaObjectCoords ?st' ! i)
               = assigned_points (insert ?k K) (diaSources ?st') (diaObjectId (diaObjectCat ?st' ! i))
           \<and> healPixIndices ?st' ! i
               = toIndex L (nside cfg) (ra (diaObjectCat ?st' ! i)) (decl (diaObjectCat ?st' ! i))"
    if "i < Suc ?n" for i
  proof (cases "i < ?n")
    case True
    with objs [OF True] old [OF True] len show ?thesis
      unfolding cat' coords' hp' tbl' by (simp add: nth_append)
  next
    case False
    with that have i: "i = ?n" by simp
    from avg new len show ?thesis
      unfolding cat' coords' hp' tbl' i by (simp add: nth_append source_point_def)
  qed
  have rows: "\<exists>i < Suc ?n. src_diaObjectId r' = Some (?sto (idf i))"
    if r': "r' \<in> set (table_rows ?tbl')" "source_key r' \<in> insert ?k K" for r'
  proof -
    from r'(1) obtain r where r: "r \<in> set (table_rows ?tbl)" "r' = ?upd r"
      unfolding rows' by auto
    show ?thesis
    proof (cases "source_key r = ?k")
      case True
      with r show ?thesis by auto
    next
      case False
      with r r'(2) have "source_key r \<in> K" "r' = r" by auto
      with rowsJ [OF r(1)] show ?thesis
        using less_Suc_eq by auto
    qed
  qed
  show ?thesis
    unfolding mean_and_cell_def
  proof (intro conjI allI impI ballI)
    show "length (diaObjectCoords ?st') = length (diaObjectCat ?st')" using len by simp
    show "length (healPixIndices ?st') = length (diaObjectCat ?st')" using len by simp
    show "idCat ?st' = length (diaObjectCat ?st')" by (simp add: idc)
  next
    fix i assume "i < length (diaObjectCat ?st')"
    then have i: "i < Suc ?n" by simp
    note o = obj [OF i]
    from o show "diaObjectId (diaObjectCat ?st' ! i) = idf i" by simp
    from o show "SpherePoint (ra (diaObjectCat ?st' ! i)) (decl (diaObjectCat ?st' ! i))
               = averageSpherePoint L (diaObjectCoords ?st' ! i)" by simp
    from o show "mset (diaObjectCoords ?st' ! i)
               = assigned_points (insert ?k K) (diaSources ?st') (diaObjectId (diaObjectCat ?st' ! i))"
      by simp
    from o show "healPixIndices ?st' ! i
               = toIndex L (nside cfg) (ra (diaObjectCat ?st' ! i)) (decl (diaObjectCat ?st' ! i))"
      by simp
  next
    fix r assume "r \<in> set (table_rows (diaSources ?st'))" "source_key r \<in> insert ?k K"
    then have "\<exists>i < Suc ?n. src_diaObjectId r = Some (?sto (idf i))"
      unfolding tbl' by (rule rows)
    then show "\<exists>i < length (diaObjectCat ?st').
        src_diaObjectId r = Some (stored_value (diaObjectId_dtype (diaSources ?st')) (idf i))"
      unfolding tbl' by simp
  qed
qed

lemma filter_mset_disj:
  assumes "\<And>x. x \<in># M \<Longrightarrow> \<not> (P x \<and> Q x)"
  shows "filter_mset (\<lambda>x. P x \<or> Q x) M = filter_mset P M + filter_mset Q M"
  using assms by (induction M) auto

lemma mean_and_cell_update:
  fixes st :: "'x engine"
  assumes J: "mean_and_cell L cfg idf K st"
    and N: "next_source idf K st s"
    and U: "updateCatalogs L cfg m s (ccdVisitId s) (diaSourceId s) st = Inr st'"
  shows "mean_and_cell L cfg idf (insert (source_key s) K) st'"
proof -
  let ?n = "length (diaObjectCat st)"
  let ?tbl = "diaSources st"
  let ?sto = "stored_value (diaObjectId_dtype ?tbl)"
  let ?k = "source_key s"
  let ?p = "SpherePoint (src_ra s) (src_decl s)"
  let ?avg = "averageSpherePoint L (diaObjectCoords st ! m @ [?p])"
  let ?upd = "\<lambda>r :: 'x diaSource. if source_key r = ?k
                then r\<lparr>src_diaObjectId := Some (?sto (idf m))\<rparr> else r"
  let ?tbl' = "set_diaObjectId (ccdVisitId s) (diaSourceId s) (idf m) ?tbl"
  note u = updateCatalogs_Inr [OF U]
  from J have len: "length (diaObjectCoords st) = ?n" "length (healPixIndices st) = ?n"
    and idc: "idCat st = ?n"
    and objs: "\<And>i. i < ?n \<Longrightarrow> diaObjectId (diaObjectCat st ! i) = idf i
           \<and> SpherePoint (ra (diaObjectCat st ! i)) (decl (diaObjectCat st ! i))
               = averageSpherePoint L (diaObjectCoords st ! i)
           \<and> mset (diaObjectCoords st ! i)
               = assigned_points K ?tbl (diaObjectId (diaObjectCat st ! i))
           \<and> healPixIndices st ! i
               = toIndex L (nside cfg) (ra (diaObjectCat st ! i)) (decl (diaObjectCat st ! i))"
    and rowsJ: "\<And>r. r \<in> set (table_rows ?tbl) \<Longrightarrow> source_key r \<in> K \<Longrightarrow>
           \<exists>i < ?n. src_diaObjectId r = Some (?sto (idf i))"
    by (simp_all add: mean_and_cell_def)
  from N have dist: "distinct (map source_key (table_rows ?tbl))"
    and mem: "erase s \<in> set (map erase (table_rows ?tbl))"
    and fresh: "?k \<notin> K"
    and inj: "inj_on (\<lambda>k. ?sto (idf k)) {..?n}"
    by (simp_all add: next_source_def idc)
  have inj_eq: "(?sto (idf i) = ?sto (idf j)) = (i = j)" if "i \<le> ?n" "j \<le> ?n" for i j
    using inj that by (auto simp: inj_on_def)
  have m: "m < ?n" by (rule u(2))
  have idm: "diaObjectId (diaObjectCat st ! m) = idf m"
    using objs [OF m] by simp
  have tbl': "diaSources st' = ?tbl'"
    unfolding u(8) idm ..
  have rows': "table_rows ?tbl' = map ?upd (table_rows ?tbl)"
    by (rule set_diaObjectId_rows)
  have other: "assigned_points (insert ?k K) ?tbl' (idf i) = assigned_points K ?tbl (idf i)"
    if i: "i < ?n" "i \<noteq> m" for i
    unfolding assigned_points_def rows' dtype_set_diaObjectId stored_value_after_write
  proof (rule image_filter_map_cong)
    fix r assume r: "r \<in> set (table_rows ?tbl)"
    show "source_point (?upd r) = source_point r
       \<and> ((source_key (?upd r) \<in> insert ?k K \<and> src_diaObjectId (?upd r) = Some (?sto (idf i)))
            \<longleftrightarrow> (source_key r \<in> K \<and> src_diaObjectId r = Some (?sto (idf i))))"
      using fresh i m inj_eq [of m i] by auto
  qed
  have this_one: "assigned_points (insert ?k K) ?tbl' (idf m)
                = assigned_points K ?tbl (idf m) + {#source_point s#}"
  proof -
    have "assigned_points (insert ?k K) ?tbl' (idf m)
        = image_mset source_point
            (filter_mset (\<lambda>r. (source_key r \<in> K \<and> src_diaObjectId r = Some (?sto (idf m)))
                              \<or> source_key r = ?k) (mset (table_rows ?tbl)))"
      unfolding assigned_points_def rows' dtype_set_diaObjectId stored_value_after_write
    proof (rule image_filter_map_cong)
      fix r assume r: "r \<in> set (table_rows ?tbl)"
      show "source_point (?upd r) = source_point r
         \<and> ((source_key (?upd r) \<in> insert ?k K \<and> src_diaObjectId (?upd r) = Some (?sto (idf m)))
              \<longleftrightarrow> ((source_key r \<in> K \<and> src_diaObjectId r = Some (?sto (idf m)))
                    \<or> source_key r = ?k))"
        by auto
    qed
    also have "filter_mset (\<lambda>r. (source_key r \<in> K \<and> src_diaObjectId r = Some (?sto (idf m)))
                              \<or> source_key r = ?k) (mset (table_rows ?tbl))
        = filter_mset (\<lambda>r. source_key r \<in> K \<and> src_diaObjectId r = Some (?sto (idf m)))
            (mset (table_rows ?tbl))
          + filter_mset (\<lambda>r. source_key r = ?k) (mset (table_rows ?tbl))"
      by (rule filter_mset_disj) (use fresh in auto)
    finally show ?thesis
      using points_of_key [OF dist mem] by (simp add: assigned_points_def)
  qed
  have obj: "diaObjectId (diaObjectCat st' ! i) = idf i
           \<and> SpherePoint (ra (diaObjectCat st' ! i)) (decl (diaObjectCat st' ! i))
               = averageSpherePoint L (diaObjectCoords st' ! i)
           \<and> mset (diaObjectCoords st' ! i)
               = assigned_points (insert ?k K) (diaSources st') (diaObjectId (diaObjectCat st' ! i))
           \<and> healPixIndices st' ! i
               = toIndex L (nside cfg) (ra (diaObjectCat st' ! i)) (decl (diaObjectCat st' ! i))"
    if i: "i < ?n" for i
  proof (cases "i = m")
    case True
    from objs [OF m] this_one len m show ?thesis
      unfolding u(4,5,6) tbl' True by (simp add: source_point_def)
  next
    case False
    from objs [OF i] other [OF i False] len i False show ?thesis
      unfolding u(4,5,6) tbl' by simp
  qed
  have rows: "\<exists>i < ?n. src_diaObjectId r' = Some (?sto (idf i))"
    if r': "r' \<in> set (table_rows ?tbl')" "source_key r' \<in> insert ?k K" for r'
  proof -
    from r'(1) obtain r where r: "r \<in> set (table_rows ?tbl)" "r' = ?upd r"
      unfolding rows' by auto
    show ?thesis
    proof (cases "source_key r = ?k")
      case True
      with r m show ?thesis by auto
    next
      case False
      with r r'(2) have "source_key r \<in> K" "r' = r" by auto
      with rowsJ [OF r(1)] show ?thesis by auto
    qed
  qed
  have n': "length (diaObjectCat st') = ?n" unfolding u(5) by simp
  show ?thesis
    unfolding mean_and_cell_def n'
  proof (intro conjI allI impI ballI)
    show "length (diaObjectCoords st') = ?n" unfolding u(4) using len by simp
    show "length (healPixIndices st') = ?n" unfolding u(6) using len by simp
    show "idCat st' = ?n" unfolding u(7) by (rule idc)
  next
    fix i assume i: "i < ?n"
    note o = obj [OF i]
    from o show "diaObjectId (diaObjectCat st' ! i) = idf i" by simp
    from o show "SpherePoint (ra (diaObjectCat st' ! i)) (decl (diaObjectCat st' ! i))
               = averageSpherePoint L (diaObjectCoords st' ! i)" by simp
    from o show "mset (diaObjectCoords st' ! i)
               = assigned_points (insert ?k K) (diaSources st') (diaObjectId (diaObjectCat st' ! i))"
      by simp
    from o show "healPixIndices st' ! i
               = toIndex L (nside cfg) (ra (diaObjectCat st' ! i)) (decl (diaObjectCat st' ! i))"
      by simp
  next
    fix r assume "r \<in> set (table_rows (diaSources st'))" "source_key r \<in> insert ?k K"
    then have "\<exists>i < ?n. src_diaObjectId r = Some (?sto (idf i))"
      unfolding tbl' by (rule rows)
    then show "\<exists>i < ?n.
        src_diaObjectId r = Some (stored_value (diaObjectId_dtype (diaSources st')) (idf i))"
      unfolding tbl' by simp
  qed
qed

lemma sum_visits_mset:
  fixes f :: "'a \<Rightarrow> int"
  assumes "distinct vs" "f ` set rows \<subseteq> set vs"
  shows "(\<Sum>v\<leftarrow>vs. mset (filter (\<lambda>r. f r = v) rows)) = mset rows"
  using assms(2)
proof (induction rows)
  case Nil
  then show ?case by (induction vs) simp_all
next
  case (Cons r rows)
  have "(\<Sum>v\<leftarrow>vs. mset (filter (\<lambda>r. f r = v) (r # rows)))
      = (\<Sum>v\<leftarrow>vs. (if f r = v then {#r#} else {#}) + mset (filter (\<lambda>r. f r = v) rows))"
    by (rule arg_cong [where f = sum_list]) simp
  also have "\<dots> = (\<Sum>v\<leftarrow>vs. if f r = v then {#r#} else {#})
                  + (\<Sum>v\<leftarrow>vs. mset (filter (\<lambda>r. f r = v) rows))"
    by (simp add: sum_list_addf)
  also have "(\<Sum>v\<leftarrow>vs. if f r = v then {#r#} else {#}) = {#r#}"
    using assms(1) Cons.prems
    by (simp add: sum_list_distinct_conv_sum_set sum.delta')
  finally show ?case using Cons by simp
qed

lemma mset_processing_order: "mset (processing_order rows) = mset rows"
proof -
  let ?vs = "sort (remdups (map ccdVisitId rows))"
  have "mset (processing_order rows)
      = (\<Sum>v\<leftarrow>?vs. mset (filter (\<lambda>r. ccdVisitId r = v) rows))"
    by (simp add: processing_order_def mset_concat comp_def)
  also have "\<dots> = mset rows"
    by (rule sum_visits_mset) simp_all
  finally show ?thesis .
qed

lemma distinct_keys_processing_order:
  "distinct (map f (processing_order rows)) = distinct (map f rows)"
proof -
  have "mset (map f (processing_order rows)) = mset (map f rows)"
    by (simp add: mset_processing_order)
  then show ?thesis by (rule mset_eq_imp_distinct_iff)
qed

lemma keys_set_diaObjectId [simp]:
  "map source_key (table_rows (set_diaObjectId v k i tbl)) = map source_key (table_rows tbl)"
  by (simp add: set_diaObjectId_def comp_def if_distrib [of source_key] cong: if_cong)

lemma stored_value_after_write_fun:
  "stored_value (dtype_after_write d) = stored_value d"
  by (rule ext) simp

lemma next_source_step:
  fixes st :: "'x engine" and t :: "'x diaSourceTable"
  assumes keys: "map source_key (table_rows (diaSources st)) = map source_key (table_rows t)"
    and sto: "stored_value (diaObjectId_dtype (diaSources st)) = stored_value (diaObjectId_dtype t)"
    and sub: "set (map source_key d) \<subseteq> set (map source_key (table_rows t))"
    and mem: "erase s \<in> set (map erase (table_rows (diaSources st)))"
    and dist: "distinct (map source_key (table_rows t))"
    and inj: "inj_on (\<lambda>k. stored_value (diaObjectId_dtype t) (idf k)) {..<length (table_rows t)}"
    and dd: "distinct (map source_key (d @ [erase s]))"
    and idc: "idCat st \<le> length d"
  shows "next_source idf (set (map source_key d)) st s"
    and "set (map source_key (d @ [erase s])) \<subseteq> set (map source_key (table_rows t))"
proof -
  from mem obtain r0 where r0: "r0 \<in> set (table_rows (diaSources st))" "erase r0 = erase s"
    by auto
  have "source_key r0 = source_key s"
    using arg_cong [OF r0(2), of source_key] by simp
  moreover from r0(1) have "source_key r0 \<in> source_key ` set (table_rows (diaSources st))"
    by (rule imageI)
  ultimately have "source_key s \<in> set (map source_key (table_rows (diaSources st)))"
    by simp
  then have ks: "source_key s \<in> set (map source_key (table_rows t))"
    unfolding keys .
  with sub show sub': "set (map source_key (d @ [erase s])) \<subseteq> set (map source_key (table_rows t))"
    by simp
  have "length (d @ [erase s]) = card (set (map source_key (d @ [erase s])))"
    using distinct_card [OF dd] by simp
  also have "\<dots> \<le> card (set (map source_key (table_rows t)))"
    by (rule card_mono [OF _ sub']) simp
  also have "\<dots> \<le> length (table_rows t)"
    using card_length [of "map source_key (table_rows t)"] by simp
  finally have "length d < length (table_rows t)" by simp
  with idc have "{..idCat st} \<subseteq> {..<length (table_rows t)}" by auto
  with inj have "inj_on (\<lambda>k. stored_value (diaObjectId_dtype t) (idf k)) {..idCat st}"
    by (rule inj_on_subset)
  moreover from dd have "source_key s \<notin> set (map source_key d)" by simp
  ultimately show "next_source idf (set (map source_key d)) st s"
    using dist mem unfolding next_source_def keys sto by simp
qed

lemma run_mean_and_cell:
  fixes t :: "'x diaSourceTable"
  assumes avg: "\<forall>p. averageSpherePoint L [p] = p"
    and dist: "distinct (map source_key (table_rows t))"
    and inj: "inj_on (\<lambda>k. stored_value (diaObjectId_dtype t) (makeSource L tp (64 - bits) k))
                {..<length (table_rows t)}"
  shows "\<exists>st. run_engine L cfg t tp bits = Inr st
       \<and> mean_and_cell L cfg (makeSource L tp (64 - bits)) (source_key ` set (table_rows t)) st"
proof -
  let ?idf = "makeSource L tp (64 - bits)"
  let ?P = "\<lambda>(d :: 'x diaSource list) (st :: 'x engine).
       map source_key (table_rows (diaSources st)) = map source_key (table_rows t)
     \<and> stored_value (diaObjectId_dtype (diaSources st)) = stored_value (diaObjectId_dtype t)
     \<and> set (map source_key d) \<subseteq> set (map source_key (table_rows t))
     \<and> (distinct (map source_key d) \<longrightarrow>
          mean_and_cell L cfg ?idf (set (map source_key d)) st \<and> idCat st \<le> length d)"
  have "\<exists>st. run_engine L cfg t tp bits = Inr st
       \<and> ?P (processing_order (map erase (table_rows t))) st
       \<and> parallel_lists st
       \<and> map erase (table_rows (diaSources st)) = map erase (table_rows t)"
  proof (rule run_engine_inv [where P = ?P])
    fix d :: "'x diaSource list" and st :: "'x engine" and s :: "'x diaSource" and v
    assume P: "?P d st" and v: "ccdVisitId s = v"
      and mem: "erase s \<in> set (map erase (table_rows (diaSources st)))"
    let ?st' = "addNewDiaObject L cfg ?idf s v (diaSourceId s) st"
    from P have keys: "map source_key (table_rows (diaSources st)) = map source_key (table_rows t)"
      and sto: "stored_value (diaObjectId_dtype (diaSources st)) = stored_value (diaObjectId_dtype t)"
      and sub: "set (map source_key d) \<subseteq> set (map source_key (table_rows t))"
      by simp_all
    have "mean_and_cell L cfg ?idf (set (map source_key (d @ [erase s]))) ?st'
        \<and> idCat ?st' \<le> length (d @ [erase s])"
      if dd: "distinct (map source_key (d @ [erase s]))"
    proof -
      from dd have "distinct (map source_key d)" by simp
      with P have J: "mean_and_cell L cfg ?idf (set (map source_key d)) st"
        and idc: "idCat st \<le> length d" by simp_all
      have N: "next_source ?idf (set (map source_key d)) st s"
        by (rule next_source_step(1) [OF keys sto sub mem dist inj dd idc])
      from mean_and_cell_addNew [OF avg J N] idc show ?thesis
        unfolding v by simp
    qed
    moreover have "set (map source_key (d @ [erase s])) \<subseteq> set (map source_key (table_rows t))"
    proof -
      from mem obtain r0 where r0: "r0 \<in> set (table_rows (diaSources st))" "erase r0 = erase s"
        by auto
      have "source_key r0 = source_key s"
        using arg_cong [OF r0(2), of source_key] by simp
      moreover from r0(1) have "source_key r0 \<in> source_key ` set (table_rows (diaSources st))"
        by (rule imageI)
      ultimately have "source_key s \<in> set (map source_key (table_rows (diaSources st)))"
        by simp
      with sub show ?thesis unfolding keys by simp
    qed
    ultimately show "?P (d @ [erase s]) ?st'"
      using keys sto by (simp add: stored_value_after_write_fun)
  next
    fix d :: "'x diaSource list" and st st' :: "'x engine" and s :: "'x diaSource" and v
    assume P: "?P d st" and v: "ccdVisitId s = v"
      and mem: "erase s \<in> set (map erase (table_rows (diaSources st)))"
      and U: "updateCatalogs L cfg (nearest L cfg s st) s v (diaSourceId s) st = Inr st'"
    note u = updateCatalogs_Inr [OF U]
    from P have keys: "map source_key (table_rows (diaSources st)) = map source_key (table_rows t)"
      and sto: "stored_value (diaObjectId_dtype (diaSources st)) = stored_value (diaObjectId_dtype t)"
      and sub: "set (map source_key d) \<subseteq> set (map source_key (table_rows t))"
      by simp_all
    have "mean_and_cell L cfg ?idf (set (map source_key (d @ [erase s]))) st'
        \<and> idCat st' \<le> length (d @ [erase s])"
      if dd: "distinct (map source_key (d @ [erase s]))"
    proof -
      from dd have "distinct (map source_key d)" by simp
      with P have J: "mean_and_cell L cfg ?idf (set (map source_key d)) st"
        and idc: "idCat st \<le> length d" by simp_all
      have N: "next_source ?idf (set (map source_key d)) st s"
        by (rule next_source_step(1) [OF keys sto sub mem dist inj dd idc])
      from mean_and_cell_update [OF J N U [folded v]] idc show ?thesis
        unfolding u(7) by simp
    qed
    moreover have "set (map source_key (d @ [erase s])) \<subseteq> set (map source_key (table_rows t))"
    proof -
      from mem obtain r0 where r0: "r0 \<in> set (table_rows (diaSources st))" "erase r0 = erase s"
        by auto
      have "source_key r0 = source_key s"
        using arg_cong [OF r0(2), of source_key] by simp
      moreover from r0(1) have "source_key r0 \<in> source_key ` set (table_rows (diaSources st))"
        by (rule imageI)
      ultimately have "source_key s \<in> set (map source_key (table_rows (diaSources st)))"
        by simp
      with sub show ?thesis unfolding keys by simp
    qed
    ultimately show "?P (d @ [erase s]) st'"
      using keys sto unfolding u(8) by (simp add: stored_value_after_write_fun)
  next
    show "?P [] (init_engine t)"
      by (simp add: mean_and_cell_init) (simp add: init_engine_def)
  qed
  then obtain st where st: "run_engine L cfg t tp bits = Inr st"
    "?P (processing_order (map erase (table_rows t))) st" by blast
  have "distinct (map source_key (processing_order (map erase (table_rows t))))"
    unfolding distinct_keys_processing_order using dist by (simp add: comp_def)
  moreover have "set (map source_key (processing_order (map erase (table_rows t))))
      = source_key ` set (table_rows t)"
    by (simp add: set_processing_order image_image)
  ultimately have "mean_and_cell L cfg ?idf (source_key ` set (table_rows t)) st"
    using st(2) by simp
  with st(1) show ?thesis by blast
qed

section \<open>Evaluation of the library instance\<close>

lemma float64_exponent_small: "a < 2 ^ 53 \<Longrightarrow> float64_exponent a = 0"
  by (subst float64_exponent.simps) simp

lemma float64_exponent_large: "\<not> a < 2 ^ 53 \<Longrightarrow> float64_exponent a = Suc (float64_exponent (a div 2))"
  by (subst float64_exponent.simps) simp

lemma float64_of_int_exact: "\<bar>n\<bar> < 2 ^ 53 \<Longrightarrow> float64_of_int n = n"
  by (simp add: float64_of_int_def Let_def float64_exponent_small mult_sgn_abs)

lemma float64_of_int_small [simp]: "float64_of_int 1 = 1" "float64_of_int 2 = 2"
  by (simp_all add: float64_of_int_exact)

lemma lib_simps [simp]:
  "toIndex one_cell_lib = (\<lambda>n a d. 0)" "query_disc one_cell_lib = (\<lambda>n a d r. [0])"
  "eq2xyz one_cell_lib = unit_vector"  "averageSpherePoint one_cell_lib = mean_point"
  "makeSource one_cell_lib = (\<lambda>tp reserved k. tp * 2 ^ nat reserved + int k + 1)"
  by (simp_all add: one_cell_lib_def)

lemma uv0: "unit_vector 0 0 = (1, 0, 0)"
  by (simp add: unit_vector_def deg2rad_def)

lemma uv90: "unit_vector 90 0 = (0, 1, 0)"
  by (simp add: unit_vector_def deg2rad_def)

lemma vd [simp]: "vec_dist (0,1,0) (1,0,0) = sqrt 2" "vec_dist (0,1,0) (0,1,0) = 0"
  by simp_all

lemma thr_default: "\<not> sqrt 2 < deg2rad (tolerance default_config / 3600)"
proof -
  have "deg2rad (tolerance default_config / 3600) < 1"
    using pi_less_4 by (simp add: deg2rad_def default_config_def)
  moreover have "1 < sqrt 2" by simp
  ultimately show ?thesis by linarith
qed

lemma thr_pos: "0 < deg2rad (tolerance default_config / 3600)"
  by (simp add: deg2rad_def default_config_def)

lemma upt2: "[0..<2] = [0, 1]" by (simp add: upt_rec)

lemmas eval_defs = run_def run_engine_def mk_source_def init_engine_def process_visit_def
  no_column_def float_column_def stored_value_def dtype_after_write_def
  addNewDiaObject_def set_diaObjectId_def associate_source_def findMatches_def
  updateCatalogs_def Let_def mean_point_def createDiaObject_def

lemma deg2rad_90: "deg2rad 90 = pi / 2"
  by (simp add: deg2rad_def)

lemma sqrt2_less_half_pi: "sqrt 2 < pi / 2"
proof -
  have s: "sin (pi / 8) \<le> pi / 8" by (rule sin_x_le_x) simp
  have sp: "0 < sin (pi / 8)" by (rule sin_gt_zero) simp_all
  have "cos (pi / 8) < cos 0" by (rule cos_monotone_0_pi) simp_all
  then have c: "cos (pi / 8) < 1" by simp
  have "sin (pi / 4) = 2 * sin (pi / 8) * cos (pi / 8)"
    using sin_double [of "pi / 8"] by simp
  also have "\<dots> < 2 * sin (pi / 8) * 1"
    using sp c by (intro mult_strict_left_mono) simp_all
  also have "\<dots> \<le> pi / 4" using s by simp
  finally show ?thesis by (simp add: sin_45)
qed

lemma sqrt2_twice_less_pi: "sqrt 2 * 2 < pi"
  using sqrt2_less_half_pi by simp

lemma run_two_visits:
  "run one_cell_lib default_config (no_column [mk_source 1 1 0 0, mk_source 2 2 0 0]) 0 0 =
   Inr \<lparr>assocDiaSources = float_column [(mk_source 1 1 0 0)\<lparr>src_diaObjectId := Some 1\<rparr>,
                              (mk_source 2 2 0 0)\<lparr>src_diaObjectId := Some 1\<rparr>],
        diaObjects = [(createDiaObject 1 0 0)\<lparr>nDiaSources := 2\<rparr>]\<rparr>"
  by (simp add: eval_defs uv0 thr_pos)

lemma two_coincident_nearest:
  "matched one_cell_lib default_config (mk_source 2 3 0 0) two_coincident_objects"
  "nearest one_cell_lib default_config (mk_source 2 3 0 0) two_coincident_objects = 0"
  by (simp_all add: matched_def nearest_def candidates_def src_dist_def
      two_coincident_objects_def mk_source_def uv0 thr_pos upt2)

lemma float64_exponent_2_54 [simp]:
  "float64_exponent 18014398509481985 = 2" "float64_exponent 18014398509481986 = 2"
  by (simp_all add: float64_exponent_large float64_exponent_small)

lemma float64_of_int_2_54 [simp]:
  "float64_of_int 18014398509481985 = 18014398509481984"
  "float64_of_int 18014398509481986 = 18014398509481984"
  by (simp_all add: float64_of_int_def Let_def)

lemma mean_point_single: "\<forall>p. averageSpherePoint one_cell_lib [p] = p"
  by (simp add: mean_point_def)

section \<open>Runs with a tolerance that is not positive\<close>

lemma remdups_constant: "xs \<noteq> [] \<Longrightarrow> \<forall>x \<in> set xs. x = v \<Longrightarrow> remdups xs = [v]"
proof (induction xs)
  case Nil
  then show ?case by simp
next
  case (Cons x xs)
  then show ?case by (cases xs) auto
qed

lemma addNewDiaObject_tolerance:
  "addNewDiaObject L (cfg\<lparr>tolerance := x\<rparr>) idf s v k st = addNewDiaObject L cfg idf s v k st"
  by (simp add: addNewDiaObject_def)

lemma first_visit_loop_tolerance:
  "first_visit_loop L (cfg\<lparr>tolerance := x\<rparr>) idf v st rows = first_visit_loop L cfg idf v st rows"
  by (induction rows arbitrary: st) (simp_all add: addNewDiaObject_tolerance)

lemma run_empty:
  "run L cfg \<lparr>table_rows = [], diaObjectId_dtype = d\<rparr> tp bits =
     Inr \<lparr>assocDiaSources = \<lparr>table_rows = [], diaObjectId_dtype = d\<rparr>, diaObjects = []\<rparr>"
  by (simp add: run_def run_engine_def init_engine_def)

lemma run_single_visit_tolerance:
  fixes t :: "'x diaSourceTable"
  assumes "\<forall>r \<in> set (table_rows t). ccdVisitId r = v"
  shows "run L (cfg\<lparr>tolerance := x\<rparr>) t tp bits = run L cfg t tp bits"
proof (cases "table_rows t = []")
  case True
  then show ?thesis
    by (simp add: run_def run_engine_def)
next
  case False
  with assms have "remdups (map ccdVisitId (table_rows t)) = [v]"
    by (intro remdups_constant) auto
  then show ?thesis
    by (simp add: run_def run_engine_def process_visit_def init_engine_def
        first_visit_loop_tolerance)
qed

lemma nonpositive_tolerance_never_attaches:
  fixes srcs :: "'x diaSourceTable"
  assumes "tolerance cfg \<le> 0"
  shows "\<exists>res. run L cfg srcs tractPatchId skymapBits = Inr res
     \<and> map nDiaSources (diaObjects res) = replicate (length (table_rows srcs)) 1"
proof -
  let ?P = "\<lambda>(d :: 'x diaSource list) (st :: 'x engine).
      map nDiaSources (diaObjectCat st) = replicate (length d) 1"
  have "\<exists>st. run_engine L cfg srcs tractPatchId skymapBits = Inr st
       \<and> ?P (processing_order (map erase (table_rows srcs))) st
       \<and> parallel_lists st
       \<and> map erase (table_rows (diaSources st)) = map erase (table_rows srcs)"
  proof (rule run_engine_inv [where P = ?P])
    fix d :: "'x diaSource list" and st :: "'x engine" and s :: "'x diaSource" and v
    assume "?P d st"
    then show "?P (d @ [erase s])
       (addNewDiaObject L cfg (makeSource L tractPatchId (64 - skymapBits)) s v (diaSourceId s) st)"
      by (simp add: replicate_append_same)
  next
    fix d :: "'x diaSource list" and st st' :: "'x engine" and s :: "'x diaSource"
    assume "matched L cfg s st"
    with not_matched_nonpositive [OF assms] show "?P (d @ [erase s]) st'" by blast
  qed (simp add: init_engine_def)
  then obtain st where st: "run_engine L cfg srcs tractPatchId skymapBits = Inr st"
    "?P (processing_order (map erase (table_rows srcs))) st"
    by blast
  from run_Inr [OF st(1)] st(2) show ?thesis
    by (simp add: length_processing_order)
qed

section \<open>Conservation\<close>

text \<open>
  C1. For every input source table \<open>run\<close> returns, and the sum of \<open>nDiaSources\<close> over
  the rows of the returned \<open>diaObjects\<close> table is the number of input source rows.
\<close>

theorem run_conservation:
  fixes srcs :: "'x diaSourceTable"
  shows "\<exists>res. run L cfg srcs tractPatchId skymapBits = Inr res
     \<and> sum_list (map nDiaSources (diaObjects res)) = int (length (table_rows srcs))"
proof -
  let ?P = "\<lambda>(d :: 'x diaSource list) (st :: 'x engine).
              sum_list (map nDiaSources (diaObjectCat st)) = int (length d)"
  have "\<exists>st. run_engine L cfg srcs tractPatchId skymapBits = Inr st
       \<and> ?P (processing_order (map erase (table_rows srcs))) st
       \<and> parallel_lists st
       \<and> map erase (table_rows (diaSources st)) = map erase (table_rows srcs)"
  proof (rule run_engine_inv [where P = ?P])
    fix d :: "'x diaSource list" and st st' :: "'x engine" and s :: "'x diaSource" and v
    assume p: "sum_list (map nDiaSources (diaObjectCat st)) = int (length d)"
      and u: "updateCatalogs L cfg (nearest L cfg s st) s v (diaSourceId s) st = Inr st'"
    note f = updateCatalogs_Inr [OF u]
    show "sum_list (map nDiaSources (diaObjectCat st')) = int (length (d @ [erase s]))"
      using p f(2) unfolding f(5)
      by (simp add: map_update sum_list_update_int)
  qed (simp_all add: init_engine_def)
  then show ?thesis
    by (auto simp: run_def length_processing_order)
qed

section \<open>Sources of one visit on one object\<close>

text \<open>
  C2. The claim is that no object receives two sources of one visit. The list
  \<open>usedMatchIndicies\<close> records the objects a source was attached to, not the objects
  founded during the visit. In the table below the second visit has two sources at the same
  coordinate, far from the only object of the first visit: the first of them founds object 2,
  the second is attached to object 2, which then counts two sources of visit 2.
\<close>

theorem same_visit_double_attachment:
  "run one_cell_lib default_config
      (no_column [mk_source 1 1 0 0, mk_source 2 2 90 0, mk_source 2 3 90 0]) 0 0 =
   Inr \<lparr>assocDiaSources = float_column [(mk_source 1 1 0 0)\<lparr>src_diaObjectId := Some 1\<rparr>,
                              (mk_source 2 2 90 0)\<lparr>src_diaObjectId := Some 2\<rparr>,
                              (mk_source 2 3 90 0)\<lparr>src_diaObjectId := Some 2\<rparr>],
        diaObjects = [createDiaObject 1 0 0, (createDiaObject 2 90 0)\<lparr>nDiaSources := 2\<rparr>]\<rparr>"
  by (simp add: eval_defs uv0 uv90 thr_default thr_pos upt2)

section \<open>Distance of an attached source\<close>

text \<open>
  C3, as stated, fails. The distance \<open>findMatches\<close> computes is the length of the chord
  between the two unit vectors, not the great-circle separation, and the chord is the shorter.
  With a tolerance of 324000 arcseconds (a quarter circle) a source a quarter circle away
  from the object is attached, although its great-circle separation equals the tolerance.
\<close>

theorem attached_at_tolerance_counterexample:
  "run one_cell_lib \<lparr>tolerance = 324000, nside = 2 ^ 18\<rparr>
      (no_column [mk_source 1 1 0 0, mk_source 2 2 90 0]) 0 0 =
   Inr \<lparr>assocDiaSources = float_column [(mk_source 1 1 0 0)\<lparr>src_diaObjectId := Some 1\<rparr>,
                              (mk_source 2 2 90 0)\<lparr>src_diaObjectId := Some 1\<rparr>],
        diaObjects = [(createDiaObject 1 45 0)\<lparr>nDiaSources := 2\<rparr>]\<rparr>
   \<and> great_circle_separation 90 0 0 0 = deg2rad (324000 / 3600)"
  by (simp add: eval_defs uv0 uv90 deg2rad_90 sqrt2_twice_less_pi great_circle_separation_def)

text \<open>
  C3, amended. When the loop body attaches a source (the number of objects is unchanged), the
  object is an existing one and the chord distance between the source and the object's
  coordinate before the update is strictly less than the tolerance in radians. When the
  chord distance to every candidate is at least that threshold (equality included), the
  source founds a new object.
\<close>

theorem attachment_distance_bound:
  fixes st :: "'x engine"
  shows "(associate_source L cfg idf ccdVisit st used s = Inr (st', used') \<longrightarrow>
          length (diaObjectCat st') = length (diaObjectCat st) \<longrightarrow>
          (\<exists>i. i < length (diaObjectCat st) \<and> used' = used @ [i]
              \<and> updateCatalogs L cfg i s ccdVisit (diaSourceId s) st = Inr st'
              \<and> src_dist L s (diaObjectCat st ! i) < deg2rad (tolerance cfg / 3600)))
     \<and> (length (healPixIndices st) = length (diaObjectCat st) \<longrightarrow>
         (\<forall>m \<in> set (candidates L cfg s (healPixIndices st)).
             deg2rad (tolerance cfg / 3600) \<le> src_dist L s (diaObjectCat st ! m)) \<longrightarrow>
         associate_source L cfg idf ccdVisit st used s
           = Inr (addNewDiaObject L cfg idf s ccdVisit (diaSourceId s) st, used))"
proof (intro conjI impI)
  assume a: "associate_source L cfg idf ccdVisit st used s = Inr (st', used')"
    and l: "length (diaObjectCat st') = length (diaObjectCat st)"
  note m = associate_source_attached [OF a l]
  from m have c: "candidates L cfg s (healPixIndices st) \<noteq> []"
    by (simp add: matched_def)
  have "src_dist L s (diaObjectCat st ! nearest L cfg s st) < deg2rad (tolerance cfg / 3600)"
    using m by (simp add: nearest_dist [OF c] matched_def)
  moreover have "nearest L cfg s st < length (diaObjectCat st)"
    using m updateCatalogs_Inr(2) by blast
  ultimately show "\<exists>i. i < length (diaObjectCat st) \<and> used' = used @ [i]
              \<and> updateCatalogs L cfg i s ccdVisit (diaSourceId s) st = Inr st'
              \<and> src_dist L s (diaObjectCat st ! i) < deg2rad (tolerance cfg / 3600)"
    using m by blast
next
  assume len: "length (healPixIndices st) = length (diaObjectCat st)"
    and far: "\<forall>m \<in> set (candidates L cfg s (healPixIndices st)).
             deg2rad (tolerance cfg / 3600) \<le> src_dist L s (diaObjectCat st ! m)"
  have "\<not> matched L cfg s st"
  proof
    assume m: "matched L cfg s st"
    then have c: "candidates L cfg s (healPixIndices st) \<noteq> []"
      by (simp add: matched_def)
    from m have "src_dist L s (diaObjectCat st ! nearest L cfg s st)
                   < deg2rad (tolerance cfg / 3600)"
      by (simp add: nearest_dist [OF c] matched_def)
    with far nearest_candidate [OF c] show False by fastforce
  qed
  then show "associate_source L cfg idf ccdVisit st used s
           = Inr (addNewDiaObject L cfg idf s ccdVisit (diaSourceId s) st, used)"
    by (simp add: associate_source_eq [OF len])
qed

theorem attachment_distance_bound_witness:
  "(\<exists>st'. associate_source one_cell_lib default_config (makeSource one_cell_lib 0 64) 2
            one_object [] (mk_source 2 2 0 0) = Inr (st', [0])
        \<and> length (diaObjectCat st') = length (diaObjectCat one_object))
   \<and> src_dist one_cell_lib (mk_source 2 2 0 0) (diaObjectCat one_object ! 0)
        < deg2rad (tolerance default_config / 3600)
   \<and> associate_source one_cell_lib default_config (makeSource one_cell_lib 0 64) 2
        one_object [] (mk_source 2 3 90 0)
      = Inr (addNewDiaObject one_cell_lib default_config (makeSource one_cell_lib 0 64)
               (mk_source 2 3 90 0) 2 3 one_object, [])"
proof -
  let ?idf = "makeSource one_cell_lib 0 64"
  have len: "length (healPixIndices one_object) = length (diaObjectCat one_object)"
    by (simp add: one_object_def)
  have near: "\<exists>st'. associate_source one_cell_lib default_config ?idf 2 one_object []
                (mk_source 2 2 0 0) = Inr (st', [0])
        \<and> length (diaObjectCat st') = length (diaObjectCat one_object)"
    by (simp add: associate_source_def findMatches_def updateCatalogs_def Let_def
        one_object_def mk_source_def uv0 thr_pos)
  then obtain st' where a: "associate_source one_cell_lib default_config ?idf 2 one_object []
                (mk_source 2 2 0 0) = Inr (st', [0])"
    and l: "length (diaObjectCat st') = length (diaObjectCat one_object)"
    by blast
  from attachment_distance_bound [of one_cell_lib default_config ?idf 2 one_object "[]"
      "mk_source 2 2 0 0" st' "[0]"] a l
  have "\<exists>i. i < length (diaObjectCat one_object)
         \<and> src_dist one_cell_lib (mk_source 2 2 0 0) (diaObjectCat one_object ! i)
              < deg2rad (tolerance default_config / 3600)"
    by blast
  then have d: "src_dist one_cell_lib (mk_source 2 2 0 0) (diaObjectCat one_object ! 0)
              < deg2rad (tolerance default_config / 3600)"
    by (simp add: one_object_def)
  have far: "\<forall>m \<in> set (candidates one_cell_lib default_config (mk_source 2 3 90 0)
                           (healPixIndices one_object)).
           deg2rad (tolerance default_config / 3600)
             \<le> src_dist one_cell_lib (mk_source 2 3 90 0) (diaObjectCat one_object ! m)"
    using thr_default
    by (simp add: candidates_def src_dist_def one_object_def mk_source_def uv0 uv90)
  have k: "diaSourceId (mk_source 2 3 90 0 :: unit diaSource) = 3"
    by (simp add: mk_source_def)
  from attachment_distance_bound [of one_cell_lib default_config ?idf 2 one_object "[]"
      "mk_source 2 3 90 0"] len far
  have "associate_source one_cell_lib default_config ?idf 2 one_object [] (mk_source 2 3 90 0)
      = Inr (addNewDiaObject one_cell_lib default_config ?idf (mk_source 2 3 90 0) 2
               (diaSourceId (mk_source 2 3 90 0 :: unit diaSource)) one_object, [])"
    by blast
  with near d show ?thesis by (simp only: k simp_thms)
qed

section \<open>Exclusivity\<close>

text \<open>
  C4. The claim is that after \<open>run\<close> every row holds the id of one returned object. The
  table below comes without the \<open>diaObjectId\<close> column, so the first assignment through
  \<open>.loc\<close> creates a column of floats. With \<open>tractPatchId = 1\<close> and \<open>skymapBits = 10\<close> the
  two objects have the ids \<open>2 ^ 54 + 1\<close> and \<open>2 ^ 54 + 2\<close>. A float of 53 significant bits
  holds neither: both rows end with \<open>2 ^ 54\<close>, which is the id of no returned object, and
  the two sources, which belong to different objects, carry the same value.
\<close>

theorem rounded_id_matches_no_object:
  "run one_cell_lib default_config (no_column [mk_source 1 1 0 0, mk_source 1 2 90 0]) 1 10 =
   Inr \<lparr>assocDiaSources =
          float_column [(mk_source 1 1 0 0)\<lparr>src_diaObjectId := Some (2 ^ 54)\<rparr>,
                        (mk_source 1 2 90 0)\<lparr>src_diaObjectId := Some (2 ^ 54)\<rparr>],
        diaObjects = [createDiaObject (2 ^ 54 + 1) 0 0, createDiaObject (2 ^ 54 + 2) 90 0]\<rparr>
   \<and> (2 ^ 54 :: int)
        \<notin> set (map diaObjectId
                  [createDiaObject (2 ^ 54 + 1) 0 0, createDiaObject (2 ^ 54 + 2) 90 0])"
  by (simp add: eval_defs)

section \<open>Mean and cell\<close>



section \<open>Determinism\<close>

text \<open>
  C6. \<open>run\<close> works in place: it writes the \<open>diaObjectId\<close> column of the table it is given
  and returns that table. The id factory and the three lists are created inside \<open>run\<close>, so
  a call depends on nothing but its arguments; what a second call on the same table sees is
  the column the first call wrote. Running again on the table a call has returned, with the
  same \<open>tractPatchId\<close>, \<open>skymapBits\<close> and configuration, returns the same result: the same
  objects with their ids, member counts and coordinates, and the same table with the same
  object id in every row.
\<close>

theorem run_determinism:
  fixes t :: "'x diaSourceTable"
  assumes "run L cfg t tractPatchId skymapBits = Inr res"
  shows "run L cfg (assocDiaSources res) tractPatchId skymapBits = Inr res"
proof -
  from assms obtain st where st: "run_engine L cfg t tractPatchId skymapBits = Inr st"
    and res: "res = \<lparr>assocDiaSources = diaSources st, diaObjects = diaObjectCat st\<rparr>"
    by (auto simp: run_def split: sum.splits)
  note d = run_engine_dtype [OF st]
  have "run L cfg (diaSources st) tractPatchId skymapBits = run L cfg t tractPatchId skymapBits"
    by (rule run_same_rows) (simp_all add: d)
  with assms res show ?thesis by simp
qed

theorem run_determinism_witness:
  "run one_cell_lib default_config (no_column [mk_source 1 1 0 0, mk_source 2 2 0 0]) 0 0 =
     Inr \<lparr>assocDiaSources = float_column [(mk_source 1 1 0 0)\<lparr>src_diaObjectId := Some 1\<rparr>,
                              (mk_source 2 2 0 0)\<lparr>src_diaObjectId := Some 1\<rparr>],
          diaObjects = [(createDiaObject 1 0 0)\<lparr>nDiaSources := 2\<rparr>]\<rparr>
   \<and> run one_cell_lib default_config
        (float_column [(mk_source 1 1 0 0)\<lparr>src_diaObjectId := Some 1\<rparr>,
                       (mk_source 2 2 0 0)\<lparr>src_diaObjectId := Some 1\<rparr>]) 0 0 =
     Inr \<lparr>assocDiaSources = float_column [(mk_source 1 1 0 0)\<lparr>src_diaObjectId := Some 1\<rparr>,
                              (mk_source 2 2 0 0)\<lparr>src_diaObjectId := Some 1\<rparr>],
          diaObjects = [(createDiaObject 1 0 0)\<lparr>nDiaSources := 2\<rparr>]\<rparr>"
  using run_determinism [OF run_two_visits] run_two_visits by simp

section \<open>Tie-break\<close>

text \<open>
  C7. In a visit after the first, when the candidate at minimum distance is within the
  tolerance and has already been used in this visit, the source founds a new object: the
  catalog is the old one with the new object appended, whatever the other candidates are.
  In the instance that follows the theorem the second candidate is at distance 0 and not
  used.
\<close>

theorem claimed_nearest_spawns_object:
  fixes st :: "'x engine"
  assumes "length (healPixIndices st) = length (diaObjectCat st)"
    and "matched L cfg s st" and "nearest L cfg s st \<in> set usedMatchIndicies"
  shows "nearest L cfg s st \<in> set (candidates L cfg s (healPixIndices st))
     \<and> (\<forall>m \<in> set (candidates L cfg s (healPixIndices st)).
           src_dist L s (diaObjectCat st ! nearest L cfg s st)
             \<le> src_dist L s (diaObjectCat st ! m))
     \<and> src_dist L s (diaObjectCat st ! nearest L cfg s st) < deg2rad (tolerance cfg / 3600)
     \<and> associate_source L cfg idf ccdVisit st usedMatchIndicies s
           = Inr (addNewDiaObject L cfg idf s ccdVisit (diaSourceId s) st, usedMatchIndicies)
     \<and> diaObjectCat (addNewDiaObject L cfg idf s ccdVisit (diaSourceId s) st)
           = diaObjectCat st @ [createDiaObject (idf (idCat st)) (src_ra s) (src_decl s)]"
proof -
  from assms(2) have c: "candidates L cfg s (healPixIndices st) \<noteq> []"
    by (simp add: matched_def)
  have "src_dist L s (diaObjectCat st ! nearest L cfg s st) < deg2rad (tolerance cfg / 3600)"
    using assms(2) by (simp add: nearest_dist [OF c] matched_def)
  moreover have "associate_source L cfg idf ccdVisit st usedMatchIndicies s
           = Inr (addNewDiaObject L cfg idf s ccdVisit (diaSourceId s) st, usedMatchIndicies)"
    using assms(2,3) by (simp add: associate_source_eq [OF assms(1)])
  ultimately show ?thesis
    using nearest_candidate [OF c] nearest_minimal [of _ L cfg s st] by simp
qed

theorem claimed_nearest_spawns_object_witness:
  "matched one_cell_lib default_config (mk_source 2 3 0 0) two_coincident_objects
   \<and> nearest one_cell_lib default_config (mk_source 2 3 0 0) two_coincident_objects \<in> set [0]
   \<and> 1 \<notin> set [0::nat]
   \<and> src_dist one_cell_lib (mk_source 2 3 0 0) (diaObjectCat two_coincident_objects ! 1)
        < deg2rad (tolerance default_config / 3600)
   \<and> associate_source one_cell_lib default_config (makeSource one_cell_lib 0 64) 2
        two_coincident_objects [0] (mk_source 2 3 0 0)
      = Inr (addNewDiaObject one_cell_lib default_config (makeSource one_cell_lib 0 64)
               (mk_source 2 3 0 0) 2 3 two_coincident_objects, [0])"
proof -
  have len: "length (healPixIndices two_coincident_objects)
               = length (diaObjectCat two_coincident_objects)"
    by (simp add: two_coincident_objects_def)
  have u: "nearest one_cell_lib default_config (mk_source 2 3 0 0) two_coincident_objects
             \<in> set [0]"
    by (simp add: two_coincident_nearest)
  have d: "src_dist one_cell_lib (mk_source 2 3 0 0) (diaObjectCat two_coincident_objects ! 1)
        < deg2rad (tolerance default_config / 3600)"
    by (simp add: src_dist_def two_coincident_objects_def mk_source_def uv0 thr_pos)
  have k: "diaSourceId (mk_source 2 3 0 0 :: unit diaSource) = 3"
    by (simp add: mk_source_def)
  from claimed_nearest_spawns_object [OF len two_coincident_nearest(1) u, of "makeSource one_cell_lib 0 64" 2]
    two_coincident_nearest(1) u d
  show ?thesis by (simp add: k)
qed

section \<open>Configuration values\<close>

text \<open>
  C8, as stated, fails. \<open>SimpleAssociationConfig\<close> declares two fields without a check and
  \<open>run\<close> tests neither value. With tolerance \<open>-1\<close> and nside \<open>-4\<close> \<open>run\<close> returns the
  empty outputs for an empty table; with tolerance \<open>-1\<close> it processes the two sources of a
  table of one visit and returns two objects.
\<close>

theorem no_validation_counterexample:
  "run one_cell_lib \<lparr>tolerance = - 1, nside = - 4\<rparr> (no_column []) 0 0 =
     Inr \<lparr>assocDiaSources = no_column [], diaObjects = []\<rparr>
   \<and> run one_cell_lib \<lparr>tolerance = - 1, nside = 2 ^ 18\<rparr>
        (no_column [mk_source 1 1 0 0, mk_source 1 2 0 0]) 0 0 =
     Inr \<lparr>assocDiaSources =
            float_column [(mk_source 1 1 0 0)\<lparr>src_diaObjectId := Some 1\<rparr>,
                          (mk_source 1 2 0 0)\<lparr>src_diaObjectId := Some 2\<rparr>],
          diaObjects = [createDiaObject 1 0 0, createDiaObject 2 0 0]\<rparr>"
  by (simp add: eval_defs)

text \<open>
  C8, amended. \<open>run\<close> has no check of its configuration; the values reach the helpers as
  they are. On an empty table \<open>run\<close> returns the empty outputs whatever the configuration
  is. On a table whose rows all belong to one visit the result does not depend on the
  tolerance, which is first read when a second visit is processed. With a tolerance that is
  not positive, a call of \<open>run\<close> that returns has attached no source: there is one object
  for every row, each with \<open>nDiaSources = 1\<close>.
\<close>

theorem no_configuration_check:
  fixes t :: "'x diaSourceTable"
  shows "run L cfg \<lparr>table_rows = [], diaObjectId_dtype = d\<rparr> tractPatchId skymapBits =
           Inr \<lparr>assocDiaSources = \<lparr>table_rows = ([] :: 'x diaSource list), diaObjectId_dtype = d\<rparr>,
                diaObjects = []\<rparr>
     \<and> ((\<forall>r \<in> set (table_rows t). ccdVisitId r = v) \<longrightarrow>
          run L (cfg\<lparr>tolerance := x\<rparr>) t tractPatchId skymapBits
            = run L cfg t tractPatchId skymapBits)
     \<and> (tolerance cfg \<le> 0 \<longrightarrow> run L cfg t tractPatchId skymapBits = Inr res \<longrightarrow>
          map nDiaSources (diaObjects res) = replicate (length (table_rows t)) 1)"
  using run_empty [of L cfg d tractPatchId skymapBits]
    run_single_visit_tolerance [of t v L x cfg tractPatchId skymapBits]
    nonpositive_tolerance_never_attaches [of cfg L t tractPatchId skymapBits]
  by auto

theorem no_configuration_check_witness:
  "run one_cell_lib (default_config\<lparr>tolerance := - 1\<rparr>)
       (no_column [mk_source 1 1 0 0, mk_source 1 2 0 0]) 0 0
     = run one_cell_lib default_config (no_column [mk_source 1 1 0 0, mk_source 1 2 0 0]) 0 0
   \<and> tolerance (default_config\<lparr>tolerance := - 1\<rparr>) \<le> 0
   \<and> run one_cell_lib (default_config\<lparr>tolerance := - 1\<rparr>)
       (no_column [mk_source 1 1 0 0, mk_source 1 2 0 0]) 0 0
     = Inr \<lparr>assocDiaSources =
              float_column [(mk_source 1 1 0 0)\<lparr>src_diaObjectId := Some 1\<rparr>,
                            (mk_source 1 2 0 0)\<lparr>src_diaObjectId := Some 2\<rparr>],
            diaObjects = [createDiaObject 1 0 0, createDiaObject 2 0 0]\<rparr>
   \<and> map nDiaSources [createDiaObject 1 0 0, createDiaObject 2 0 0] = [1, 1]"
proof -
  let ?t = "no_column [mk_source 1 1 0 0, mk_source 1 2 0 0]"
  let ?cfg = "default_config\<lparr>tolerance := - 1\<rparr>"
  have one: "\<forall>r \<in> set (table_rows ?t). ccdVisitId r = 1"
    by (simp add: no_column_def mk_source_def)
  have neg: "tolerance ?cfg \<le> 0" by simp
  have ev: "run one_cell_lib ?cfg ?t 0 0
     = Inr \<lparr>assocDiaSources =
              float_column [(mk_source 1 1 0 0)\<lparr>src_diaObjectId := Some 1\<rparr>,
                            (mk_source 1 2 0 0)\<lparr>src_diaObjectId := Some 2\<rparr>],
            diaObjects = [createDiaObject 1 0 0, createDiaObject 2 0 0]\<rparr>"
    by (simp add: eval_defs default_config_def)
  note inst1 = no_configuration_check [of one_cell_lib default_config NoColumn 0 0 ?t 1 "- 1"]
  note inst2 = no_configuration_check [of one_cell_lib ?cfg NoColumn 0 0 ?t 1 "- 1"
      "\<lparr>assocDiaSources =
              float_column [(mk_source 1 1 0 0)\<lparr>src_diaObjectId := Some 1\<rparr>,
                            (mk_source 1 2 0 0)\<lparr>src_diaObjectId := Some 2\<rparr>],
            diaObjects = [createDiaObject 1 0 0, createDiaObject 2 0 0]\<rparr>"]
  have 1: "run one_cell_lib ?cfg ?t 0 0 = run one_cell_lib default_config ?t 0 0"
    using inst1 one by blast
  have "map nDiaSources (diaObjects \<lparr>assocDiaSources =
              float_column [(mk_source 1 1 0 0)\<lparr>src_diaObjectId := Some 1\<rparr>,
                            (mk_source 1 2 0 0)\<lparr>src_diaObjectId := Some 2\<rparr>],
            diaObjects = [createDiaObject 1 0 0, createDiaObject 2 0 0]\<rparr>)
          = replicate (length (table_rows ?t)) 1"
    using inst2 neg ev by blast
  then have 2: "map nDiaSources [createDiaObject 1 0 0, createDiaObject 2 0 0] = [1, 1]"
    by (simp add: no_column_def)
  from 1 neg ev 2 show ?thesis by blast
qed

section \<open>Frame\<close>


section \<open>Parallel lists\<close>

text \<open>
  C10. The three lists of the engine have equal length and each member count is the length
  of the coordinate history: in the initial state, after the creation of an object, after the
  attachment of a source, and in the state \<open>run\<close> ends in.
\<close>

theorem parallel_state_invariant:
  fixes st :: "'x engine" and srcs :: "'x diaSourceTable"
  shows "parallel_lists (init_engine srcs)
     \<and> (parallel_lists st \<longrightarrow> parallel_lists (addNewDiaObject L cfg idf s v k st))
     \<and> (parallel_lists st \<longrightarrow> updateCatalogs L cfg i s v k st = Inr st' \<longrightarrow> parallel_lists st')
     \<and> (\<exists>st. run_engine L cfg srcs tractPatchId skymapBits = Inr st \<and> parallel_lists st)"
proof -
  let ?P = "\<lambda>(d :: 'x diaSource list) (st :: 'x engine). True"
  have "\<exists>st. run_engine L cfg srcs tractPatchId skymapBits = Inr st
       \<and> ?P (processing_order (map erase (table_rows srcs))) st
       \<and> parallel_lists st
       \<and> map erase (table_rows (diaSources st)) = map erase (table_rows srcs)"
    by (rule run_engine_inv [where P = ?P]) simp_all
  then show ?thesis
    using parallel_lists_init parallel_lists_addNew parallel_lists_update by blast
qed

theorem parallel_state_invariant_witness:
  "parallel_lists (init_engine (no_column [mk_source 1 1 0 0, mk_source 2 2 0 0]))
   \<and> parallel_lists (addNewDiaObject one_cell_lib default_config (makeSource one_cell_lib 0 64)
        (mk_source 1 1 0 0) 1 1 (init_engine (no_column [mk_source 1 1 0 0, mk_source 2 2 0 0])))
   \<and> (\<exists>st'. updateCatalogs one_cell_lib default_config 0 (mk_source 2 2 0 0) 2 2
          (addNewDiaObject one_cell_lib default_config (makeSource one_cell_lib 0 64)
             (mk_source 1 1 0 0) 1 1 (init_engine (no_column [mk_source 1 1 0 0, mk_source 2 2 0 0]))) = Inr st'
        \<and> parallel_lists st')"
proof -
  let ?t = "no_column [mk_source 1 1 0 0, mk_source 2 2 0 0]"
  let ?idf = "makeSource one_cell_lib 0 64"
  let ?st1 = "addNewDiaObject one_cell_lib default_config ?idf (mk_source 1 1 0 0) 1 1
                (init_engine ?t)"
  have 0: "parallel_lists (init_engine ?t)"
    using parallel_state_invariant [of ?t] by blast
  have 1: "parallel_lists ?st1"
    using 0 parallel_state_invariant [of ?t "init_engine ?t" one_cell_lib default_config ?idf
        "mk_source 1 1 0 0" 1 1]
    by blast
  have "\<exists>st'. updateCatalogs one_cell_lib default_config 0 (mk_source 2 2 0 0) 2 2 ?st1
      = Inr st'"
    by (rule updateCatalogs_in_range) (simp_all add: init_engine_def)
  then obtain st' where u: "updateCatalogs one_cell_lib default_config 0 (mk_source 2 2 0 0) 2 2
      ?st1 = Inr st'" ..
  have 2: "parallel_lists st'"
    using 1 u parallel_state_invariant [of ?t ?st1 one_cell_lib default_config ?idf
        "mk_source 2 2 0 0" 2 2 0 st']
    by blast
  from 0 1 u 2 show ?thesis by blast
qed

end
